theory Spec2Isabelle
  imports
    Main
    "HOL-Library.Char_ord"
    "HOL-Library.List_Lexorder"
    "HOL-Library.Product_Lexorder"
    "HOL-Library.AList"
begin

section \<open>PAGE documents and the lxml queries the converter uses\<close>

text \<open>
  An element of a parsed PAGE file: local tag name (every query of the source is written
  with the namespace wildcard \<^verbatim>\<open>{*}\<close>), attributes, text (\<open>None\<close> for an element
  without text, as lxml's \<^verbatim>\<open>.text\<close>) and child elements in document order.
\<close>

datatype xml = Elem (tag: string) (attrib: "(string \<times> string) list")
  (text_of: "string option") (children: "xml list")

datatype py_error = IndexError | ValueError | AttributeError | TypeError | NameError | OSError

definition get :: "xml \<Rightarrow> string \<Rightarrow> string option" where
  "get e k = map_of (attrib e) k"

text \<open>All proper descendants in document order: what \<^verbatim>\<open>.//\<close> ranges over.\<close>

fun iter_desc :: "xml \<Rightarrow> xml list" where
  "iter_desc (Elem t a x ks) = concat (map (\<lambda>k. k # iter_desc k) ks)"

definition findall_desc :: "xml \<Rightarrow> string \<Rightarrow> xml list" where
  "findall_desc e name = filter (\<lambda>d. tag d = name) (iter_desc e)"

definition findall_child :: "xml \<Rightarrow> string \<Rightarrow> xml list" where
  "findall_child e name = filter (\<lambda>c. tag c = name) (children e)"

definition first :: "'a list \<Rightarrow> 'a option" where
  "first xs = (case xs of [] \<Rightarrow> None | x # _ \<Rightarrow> Some x)"

section \<open>Python string helpers\<close>

text \<open>\<^verbatim>\<open>s.split(c)\<close> with an explicit one-character separator.\<close>

fun str_split :: "char \<Rightarrow> string \<Rightarrow> string list" where
  "str_split c [] = [[]]"
| "str_split c (a # s) =
     (if a = c then [] # str_split c s
      else (case str_split c s of [] \<Rightarrow> [[a]] | w # ws \<Rightarrow> (a # w) # ws))"

text \<open>\<^verbatim>\<open>sep.join(xs)\<close>.\<close>

fun join :: "string \<Rightarrow> string list \<Rightarrow> string" where
  "join sep [] = []"
| "join sep [s] = s"
| "join sep (s # t # ts) = s @ sep @ join sep (t # ts)"

text \<open>
  \<^verbatim>\<open>int(s)\<close> is a builtin of the interpreter, not code of the converter: which
  strings it accepts (the Unicode whitespace it strips, the Unicode digits it reads, the
  longest numeral) is the interpreter's matter. The geometry is therefore defined for any
  function \<open>pint\<close> from strings to integers, \<open>None\<close> standing for ValueError, and every
  statement about the code holds for each such function.
\<close>

type_synonym int_parser = "string \<Rightarrow> int option"

section \<open>TextLine, TextRegion, Page\<close>

record TextLine =
  text_line :: xml
  lx :: int
  ly :: int

record TextRegion =
  text_region :: xml
  rtype :: "string option"
  line_height :: int
  line :: "TextLine list"
  rx :: int
  ry :: int
  ident :: nat

text \<open>
  \<open>ident\<close> is the object identity of a TextRegion (its position among the objects the page
  constructs); the source compares regions with \<^verbatim>\<open>is\<close>.
\<close>

record Page =
  page_file :: string
  reading_order :: "string option list"
  text_region_list :: "TextRegion list"
  text_region_dict :: "(string option \<times> TextRegion) list"

text \<open>\<^verbatim>\<open>TextRegion.convert_coordinates\<close>: \<open>None\<close> is a missing \<^verbatim>\<open>points\<close> attribute.\<close>

fun convert_tokens :: "int_parser \<Rightarrow> string list \<Rightarrow> py_error + (int \<times> int) list" where
  "convert_tokens pint [] = Inr []"
| "convert_tokens pint (p # ps) =
     (case str_split CHR '','' p of
        [a, b] \<Rightarrow>
          (case pint a of
             None \<Rightarrow> Inl ValueError
           | Some xi \<Rightarrow>
               (case pint b of
                  None \<Rightarrow> Inl ValueError
                | Some yi \<Rightarrow>
                    (case convert_tokens pint ps of
                       Inl e \<Rightarrow> Inl e
                     | Inr r \<Rightarrow> Inr ((xi, yi) # r))))
      | _ \<Rightarrow> Inl ValueError)"

definition convert_coordinates :: "int_parser \<Rightarrow> string option \<Rightarrow> py_error + (int \<times> int) list" where
  "convert_coordinates pint points =
     (case points of
        None \<Rightarrow> Inl AttributeError
      | Some s \<Rightarrow> convert_tokens pint (str_split CHR '' '' s))"

text \<open>\<^verbatim>\<open>sorted(points, key=itemgetter(1, 0))[0]\<close>.\<close>

definition get_reference_point :: "(int \<times> int) list \<Rightarrow> py_error + (int \<times> int)" where
  "get_reference_point points =
     (case sort_key (\<lambda>p. (snd p, fst p)) points of
        [] \<Rightarrow> Inl IndexError
      | p # _ \<Rightarrow> Inr p)"

text \<open>The reference point of one line from the \<^verbatim>\<open>Coords\<close> element a query found.\<close>

definition line_reference :: "int_parser \<Rightarrow> xml option \<Rightarrow> py_error + (int \<times> int)" where
  "line_reference pint coords =
     (case coords of
        None \<Rightarrow> Inl AttributeError
      | Some c \<Rightarrow>
          (case convert_coordinates pint (get c ''points'') of
             Inl e \<Rightarrow> Inl e
           | Inr pts \<Rightarrow> get_reference_point pts))"

definition TextLine_init :: "xml \<Rightarrow> int \<times> int \<Rightarrow> TextLine" where
  "TextLine_init l p = \<lparr>text_line = l, lx = fst p, ly = snd p\<rparr>"

text \<open>The loop of \<^verbatim>\<open>get_lines\<close> when the region holds no \<^verbatim>\<open>Glyph\<close>.\<close>

fun lines_plain :: "int_parser \<Rightarrow> xml list \<Rightarrow> py_error + TextLine list" where
  "lines_plain pint [] = Inr []"
| "lines_plain pint (l # ls) =
     (case line_reference pint (first (findall_child l ''Coords'')) of
        Inl e \<Rightarrow> Inl e
      | Inr p \<Rightarrow>
          (case lines_plain pint ls of
             Inl e \<Rightarrow> Inl e
           | Inr r \<Rightarrow> Inr (TextLine_init l p # r)))"

text \<open>
  The loop when it does: the \<^verbatim>\<open>Coords\<close> of the line's first glyph that has one
  (\<^verbatim>\<open>.//Glyph/Coords\<close>); an AttributeError skips the line, any other error leaves the loop.
\<close>

definition glyph_coords :: "xml \<Rightarrow> xml option" where
  "glyph_coords l =
     first (concat (map (\<lambda>g. findall_child g ''Coords'') (findall_desc l ''Glyph'')))"

fun lines_glyph :: "int_parser \<Rightarrow> xml list \<Rightarrow> py_error + TextLine list" where
  "lines_glyph pint [] = Inr []"
| "lines_glyph pint (l # ls) =
     (case line_reference pint (glyph_coords l) of
        Inl AttributeError \<Rightarrow> lines_glyph pint ls
      | Inl e \<Rightarrow> Inl e
      | Inr p \<Rightarrow>
          (case lines_glyph pint ls of
             Inl e \<Rightarrow> Inl e
           | Inr r \<Rightarrow> Inr (TextLine_init l p # r)))"

definition collect_lines :: "int_parser \<Rightarrow> xml \<Rightarrow> py_error + TextLine list" where
  "collect_lines pint tr =
     (let text_line = findall_desc tr ''TextLine''
      in if first (findall_desc tr ''Glyph'') = None then lines_plain pint text_line
         else lines_glyph pint text_line)"

definition get_lines :: "int_parser \<Rightarrow> xml \<Rightarrow> py_error + TextLine list" where
  "get_lines pint tr =
     (case collect_lines pint tr of
        Inl e \<Rightarrow> Inl e
      | Inr lines \<Rightarrow> Inr (sort_key ly lines))"

definition TextRegion_init :: "int_parser \<Rightarrow> nat \<Rightarrow> xml \<Rightarrow> int \<Rightarrow> py_error + TextRegion" where
  "TextRegion_init pint i tr lh =
     (if lh < 0 then Inl ValueError
      else case get_lines pint tr of
             Inl e \<Rightarrow> Inl e
           | Inr ls \<Rightarrow>
               (case ls of
                  [] \<Rightarrow> Inl IndexError
                | l # _ \<Rightarrow>
                    Inr \<lparr>text_region = tr, rtype = get tr ''type'', line_height = lh,
                         line = ls, rx = lx l, ry = ly l, ident = i\<rparr>))"

text \<open>\<^verbatim>\<open>TextLine.get_text\<close>. The result is \<open>None\<close> when the chosen \<^verbatim>\<open>Unicode\<close> is empty.\<close>

definition indexed_equivs :: "xml \<Rightarrow> (string \<times> xml) list" where
  "indexed_equivs l =
     concat (map (\<lambda>e. case get e ''index'' of None \<Rightarrow> [] | Some i \<Rightarrow> [(i, e)])
                 (findall_child l ''TextEquiv''))"

fun equiv_pairs :: "(string \<times> xml) list \<Rightarrow> py_error + (string \<times> string option) list" where
  "equiv_pairs [] = Inr []"
| "equiv_pairs ((i, e) # es) =
     (case first (findall_child e ''Unicode'') of
        None \<Rightarrow> Inl AttributeError
      | Some u \<Rightarrow>
          (case equiv_pairs es of
             Inl err \<Rightarrow> Inl err
           | Inr r \<Rightarrow> Inr ((i, text_of u) # r)))"

definition get_text :: "TextLine \<Rightarrow> py_error + string option" where
  "get_text l =
     (case equiv_pairs (indexed_equivs (text_line l)) of
        Inl e \<Rightarrow> Inl e
      | Inr text_equiv \<Rightarrow>
          (case sort_key fst text_equiv of
             [] \<Rightarrow> Inr (Some [])
           | p # _ \<Rightarrow> Inr (snd p)))"

text \<open>\<^verbatim>\<open>Conversion.concatenate_lines\<close>; \<^verbatim>\<open>filter(None, text)\<close> keeps the truthy texts.\<close>

fun get_texts :: "TextLine list \<Rightarrow> py_error + string option list" where
  "get_texts [] = Inr []"
| "get_texts (l # ls) =
     (case get_text l of
        Inl e \<Rightarrow> Inl e
      | Inr t \<Rightarrow> (case get_texts ls of Inl e \<Rightarrow> Inl e | Inr ts \<Rightarrow> Inr (t # ts)))"

definition truthy :: "string option \<Rightarrow> bool" where
  "truthy t = (case t of None \<Rightarrow> False | Some s \<Rightarrow> s \<noteq> [])"

definition newline :: string where
  "newline = [CHR 0x0A]"

definition concatenate_lines :: "TextRegion \<Rightarrow> py_error + string" where
  "concatenate_lines r =
     (case get_texts (line r) of
        Inl e \<Rightarrow> Inl e
      | Inr texts \<Rightarrow> Inr (join newline (map the (filter truthy texts))))"

text \<open>\<^verbatim>\<open>Page.parse_reading_order\<close>, \<^verbatim>\<open>Page.sort_text_region\<close> and \<^verbatim>\<open>Page.__init__\<close>.\<close>

definition parse_reading_order :: "xml \<Rightarrow> string option list" where
  "parse_reading_order root =
     map (\<lambda>el. get el ''regionRef'')
       (concat (map (\<lambda>g. findall_desc g ''RegionRefIndexed'') (findall_desc root ''OrderedGroup'')))"

definition sort_text_region :: "Page \<Rightarrow> Page" where
  "sort_text_region p =
     (if text_region_dict p = [] then p
      else p\<lparr>text_region_list :=
               [the (map_of (text_region_dict p) region_id).
                  region_id \<leftarrow> reading_order p, map_of (text_region_dict p) region_id \<noteq> None]\<rparr>)"

fun regions_init :: "int_parser \<Rightarrow> nat \<Rightarrow> xml list \<Rightarrow> int \<Rightarrow> py_error + TextRegion list" where
  "regions_init pint i [] lh = Inr []"
| "regions_init pint i (e # es) lh =
     (case TextRegion_init pint i e lh of
        Inl err \<Rightarrow> Inl err
      | Inr r \<Rightarrow>
          (case regions_init pint (Suc i) es lh of
             Inl err \<Rightarrow> Inl err
           | Inr rs \<Rightarrow> Inr (r # rs)))"

definition region_id :: "TextRegion \<Rightarrow> string option" where
  "region_id r = get (text_region r) ''id''"

definition make_dict :: "TextRegion list \<Rightarrow> (string option \<times> TextRegion) list" where
  "make_dict rs = fold (\<lambda>r d. AList.update (region_id r) r d) rs []"

text \<open>\<^verbatim>\<open>root.findall(".//{*}TextRegion[{*}TextLine]")\<close>.\<close>

definition region_elements :: "xml \<Rightarrow> xml list" where
  "region_elements root =
     filter (\<lambda>e. tag e = ''TextRegion'' \<and> findall_child e ''TextLine'' \<noteq> []) (iter_desc root)"

text \<open>
  The file system is a map from path to parsed document; a path outside it makes
  \<^verbatim>\<open>etree.parse\<close> fail.
\<close>

definition Page_init :: "int_parser \<Rightarrow> (string \<rightharpoonup> xml) \<Rightarrow> string \<Rightarrow> int \<Rightarrow> py_error + Page" where
  "Page_init pint fs f lh =
     (case fs f of
        None \<Rightarrow> Inl OSError
      | Some root \<Rightarrow>
          (let ro = parse_reading_order root;
               tr = region_elements root
           in case regions_init pint 0 tr lh of
                Inl e \<Rightarrow> Inl e
              | Inr rs \<Rightarrow>
                  Inr (sort_text_region
                         \<lparr>page_file = f, reading_order = ro, text_region_list = rs,
                          text_region_dict = make_dict rs\<rparr>)))"

section \<open>The lxml elements the converter builds, and the incremental writer\<close>

text \<open>
  The converter keeps references to elements it goes on mutating after it has attached them
  to a parent, so the elements live in a heap: an address is the position in the list.
  \<^verbatim>\<open>xf.write(el)\<close> serialises the subtree as it is at that moment; later changes
  to an element already written do not reach the output.
\<close>

record enode =
  etag :: string
  eattrib :: "(string \<times> string) list"
  etext :: "string option"
  echildren :: "nat list"

datatype event =
    ProcInst string string
  | Start string "(string \<times> string) list"
  | Close
  | Node xml

record message =
  msg_file :: string
  msg_region :: nat
  msg_error :: py_error

text \<open>
  The fields of \<^verbatim>\<open>Conversion\<close> that the transducers change. \<open>current_scenario\<close> is
  \<open>None\<close> until the attribute is first assigned (the constructor does not create it).
  \<open>xf\<close> is what has been written to the incremental writer, \<open>stdout\<close> the per-region
  error messages printed (the debugging prints of the source are left out).
\<close>

record Conversion =
  text_part :: string
  previous_type :: "string option"
  front :: "nat option"
  title_page :: "nat option"
  is_title_page_created :: bool
  div_preface :: "nat option"
  prologue :: "nat option"
  act :: "nat option"
  scene :: "nat option"
  stage :: "nat option"
  cast_list :: "nat option"
  cast_item :: "nat option"
  sp_grp :: "nat option"
  sp :: "nat option"
  set_div :: "nat option"
  current_scenario :: "string option"
  heap :: "enode list"
  xf :: "event list"
  stdout :: "message list"

text \<open>
  The fields the drivers of the run change: the sorted file list, the list iterator (the files
  not handed out yet), the current file and its page.
\<close>

record Driver =
  file_list :: "string list"
  file_iter :: "string list"
  current_file :: string
  page :: Page

type_synonym 'a res = "(py_error \<times> Conversion) + ('a \<times> Conversion)"

definition and_then :: "'a res \<Rightarrow> ('a \<Rightarrow> Conversion \<Rightarrow> 'b res) \<Rightarrow> 'b res" where
  "and_then m f = (case m of Inl x \<Rightarrow> Inl x | Inr (a, c) \<Rightarrow> f a c)"

definition Element :: "string \<Rightarrow> (string \<times> string) list \<Rightarrow> Conversion \<Rightarrow> nat \<times> Conversion" where
  "Element t a c =
     (length (heap c),
      c\<lparr>heap := heap c @ [\<lparr>etag = t, eattrib = a, etext = None, echildren = []\<rparr>]\<rparr>)"

text \<open>\<^verbatim>\<open>etree.SubElement(parent, ...)\<close>: a parent that is \<^verbatim>\<open>None\<close> is a TypeError.\<close>

definition SubElement ::
  "nat option \<Rightarrow> string \<Rightarrow> (string \<times> string) list \<Rightarrow> Conversion \<Rightarrow> nat res" where
  "SubElement parent t a c =
     (case parent of
        None \<Rightarrow> Inl (TypeError, c)
      | Some p \<Rightarrow>
          (let n = length (heap c); e = heap c ! p
           in Inr (n, c\<lparr>heap := (heap c)[p := e\<lparr>echildren := echildren e @ [n]\<rparr>]
                                 @ [\<lparr>etag = t, eattrib = a, etext = None, echildren = []\<rparr>]\<rparr>)))"

definition set_text :: "nat \<Rightarrow> string \<Rightarrow> Conversion \<Rightarrow> Conversion" where
  "set_text a s c = c\<lparr>heap := (heap c)[a := (heap c ! a)\<lparr>etext := Some s\<rparr>]\<rparr>"

fun snapshot :: "nat \<Rightarrow> enode list \<Rightarrow> nat \<Rightarrow> xml" where
  "snapshot 0 h a = Elem (etag (h ! a)) (eattrib (h ! a)) (etext (h ! a)) []"
| "snapshot (Suc n) h a =
     Elem (etag (h ! a)) (eattrib (h ! a)) (etext (h ! a)) (map (snapshot n h) (echildren (h ! a)))"

text \<open>A child is always allocated after its parent, so the heap's length bounds the depth.\<close>

definition serialize :: "enode list \<Rightarrow> nat \<Rightarrow> xml" where
  "serialize h a = snapshot (length h) h a"

text \<open>\<^verbatim>\<open>xf.write(el)\<close>; lxml's writer ignores an argument that is \<^verbatim>\<open>None\<close>.\<close>

definition xf_write :: "nat option \<Rightarrow> Conversion \<Rightarrow> Conversion" where
  "xf_write el c =
     (case el of
        None \<Rightarrow> c
      | Some a \<Rightarrow> c\<lparr>xf := xf c @ [Node (serialize (heap c) a)]\<rparr>)"

definition region_text :: "TextRegion \<Rightarrow> Conversion \<Rightarrow> string res" where
  "region_text r c =
     (case concatenate_lines r of
        Inl e \<Rightarrow> Inl (e, c)
      | Inr s \<Rightarrow> Inr (s, c))"

text \<open>The two idioms of the source: a new child with a fixed text, or with the region's text.\<close>

definition fixed_child ::
  "nat option \<Rightarrow> string \<Rightarrow> (string \<times> string) list \<Rightarrow> string \<Rightarrow> Conversion \<Rightarrow> nat res" where
  "fixed_child parent t a s c =
     and_then (SubElement parent t a c) (\<lambda>n c. Inr (n, set_text n s c))"

definition region_child ::
  "nat option \<Rightarrow> string \<Rightarrow> (string \<times> string) list \<Rightarrow> TextRegion \<Rightarrow> Conversion \<Rightarrow> nat res" where
  "region_child parent t a r c =
     and_then (SubElement parent t a c) (\<lambda>n c.
     and_then (region_text r c) (\<lambda>s c. Inr (n, set_text n s c)))"

text \<open>\<^verbatim>\<open>"type = " + text_region.type\<close>: a region without a type is a TypeError.\<close>

definition type_label :: "TextRegion \<Rightarrow> Conversion \<Rightarrow> string res" where
  "type_label r c =
     (case rtype r of
        None \<Rightarrow> Inl (TypeError, c)
      | Some t \<Rightarrow> Inr (''type = '' @ t, c))"

definition three_paragraphs ::
  "nat \<Rightarrow> string \<Rightarrow> TextRegion \<Rightarrow> Conversion \<Rightarrow> unit res" where
  "three_paragraphs parent warning r c =
     and_then (type_label r c) (\<lambda>label c.
     and_then (region_text r c) (\<lambda>content c.
     and_then (fixed_child (Some parent) ''p'' [] warning c) (\<lambda>_ c.
     and_then (fixed_child (Some parent) ''p'' [] label c) (\<lambda>_ c.
     and_then (fixed_child (Some parent) ''p'' [] content c) (\<lambda>_ c. Inr ((), c))))))"

section \<open>The warning texts\<close>

definition UNKNOWN :: string where
  "UNKNOWN = ''WARNING!, the following paragraph couldn't be handled'' @ newline @
             ''correctly. You have to solve this by yourself.''"

definition WARN_HEAD :: string where
  "WARN_HEAD = ''WARNING!, the following 'head' might be slightly misplaced. Maybe'' @ newline @
               ''there is a more suitable parent tag or it might be another title page.''"

definition WARN_TITLE :: string where
  "WARN_TITLE = ''WARNING!, it's just assumed that this is the title page, check'' @ newline @
                ''this. Also check if the following 'head' elements in 'front' may be (another)''
                @ newline @ ''title page.''"

definition WARN_ROLE :: string where
  "WARN_ROLE = ''WARNING!, it seems that the role is missing. You should fix this.''"

definition WARN_FOOTNOTE :: string where
  "WARN_FOOTNOTE = ''WARNING!, this footnote couldn't be placed correctly, you have to''
                   @ newline @ ''solve this by yourself.''"

definition WARN_SET :: string where
  "WARN_SET = ''WARNING!, the description of the setting (if existing) may'' @ newline @
     ''be misplaced as a 'roleDesc' element in the 'castList'. Place it at the correct place in an element like this.''"

definition WARN_SPGRP :: string where
  "WARN_SPGRP = ''WARNING! Place the closing 'spGrp' tag after the last 'sp' tag of the''
                @ newline @ ''singing.''"

definition WARN_SPEAKER :: string where
  "WARN_SPEAKER = ''WARNING!, it seems that the speaker is missing.''"

definition WARN_CATCH_HEAD :: string where
  "WARN_CATCH_HEAD = ''WARNING!, the following 'head' element might be misplaced, i.e.''
                     @ newline @ ''there could be a better place.''"

definition WARN_CATCH_NOTE :: string where
  "WARN_CATCH_NOTE = ''WARNING!, the element isn't placed correctly, it still needs a solution.''"

definition BODY_MARKER :: "string list" where
  "BODY_MARKER = [''header'', ''heading'', ''floating'', ''credit'', ''drop-capital'']"

definition is_marker :: "TextRegion \<Rightarrow> bool" where
  "is_marker r = (case rtype r of None \<Rightarrow> False | Some t \<Rightarrow> t \<in> set BODY_MARKER)"

section \<open>The front-matter transducer\<close>

definition build_front :: "TextRegion \<Rightarrow> Conversion \<Rightarrow> unit res" where
  "build_front r c0 =
     (let c = (if previous_type c0 = Some ''catch-word'' \<and> rtype r \<noteq> Some ''catch-word''
               then c0\<lparr>is_title_page_created := True\<rparr> else c0)
      in and_then
        (if rtype r = Some ''catch-word'' then
           (if is_title_page_created c then
              and_then (SubElement (front c) ''div'' [(''type'', ''preface'')] c) (\<lambda>dv c.
              and_then (fixed_child (Some dv) ''p'' [] WARN_HEAD (c\<lparr>div_preface := Some dv\<rparr>)) (\<lambda>_ c.
              and_then (region_child (div_preface c) ''head'' [] r c) (\<lambda>_ c. Inr ((), c))))
            else
              and_then
                (if previous_type c \<noteq> Some ''catch-word'' then
                   and_then (SubElement (front c) ''titlePage'' [] c) (\<lambda>t c.
                   and_then (fixed_child (Some t) ''titlePart'' [] WARN_TITLE (c\<lparr>title_page := Some t\<rparr>))
                     (\<lambda>_ c. Inr ((), c)))
                 else Inr ((), c))
                (\<lambda>_ c. and_then (region_child (title_page c) ''titlePart'' [] r c) (\<lambda>_ c. Inr ((), c))))
         else if rtype r = Some ''other'' then
           and_then
             (if (previous_type c \<noteq> Some ''other'' \<and> previous_type c \<noteq> Some ''catch-word'')
                 \<or> div_preface c = None then
                and_then (SubElement (front c) ''div'' [(''type'', ''preface'')] c) (\<lambda>dv c.
                  Inr ((), c\<lparr>div_preface := Some dv\<rparr>))
              else Inr ((), c))
             (\<lambda>_ c. and_then (region_child (div_preface c) ''p'' [] r c) (\<lambda>_ c. Inr ((), c)))
         else if rtype r = Some ''TOC-entry'' then
           and_then
             (if \<not> (previous_type c = Some ''TOC-entry'' \<or> previous_type c = Some ''signature-mark'')
                 \<or> cast_list c = None then
                and_then (SubElement (front c) ''castList'' [] c) (\<lambda>l c.
                  Inr ((), c\<lparr>cast_list := Some l\<rparr>))
              else Inr ((), c))
             (\<lambda>_ c.
                and_then (SubElement (cast_list c) ''castItem'' [] c) (\<lambda>i c.
                and_then (region_child (Some i) ''role'' [] r (c\<lparr>cast_item := Some i\<rparr>)) (\<lambda>_ c.
                  Inr ((), c))))
         else if rtype r = Some ''signature-mark'' then
           and_then
             (if cast_item c = None then
                and_then (SubElement (front c) ''castList'' [] c) (\<lambda>l c.
                and_then (SubElement (Some l) ''castItem'' [] c) (\<lambda>i c.
                and_then (fixed_child (Some i) ''role'' [] WARN_ROLE c) (\<lambda>_ c.
                  SubElement (Some i) ''roleDesc'' [] c)))
              else SubElement (cast_item c) ''roleDesc'' [] c)
             (\<lambda>role_desc c. and_then (region_text r c) (\<lambda>s c. Inr ((), set_text role_desc s c)))
         else if rtype r = Some ''footnote'' then
           and_then (SubElement (front c) ''div'' [(''type'', ''notes'')] c) (\<lambda>u c.
           and_then (fixed_child (Some u) ''p'' [] WARN_FOOTNOTE c) (\<lambda>_ c.
           and_then (region_child (Some u) ''note'' [(''place'', ''foot'')] r c) (\<lambda>_ c. Inr ((), c))))
         else
           and_then (SubElement (front c) ''div'' [(''type'', ''notes'')] c) (\<lambda>u c.
             three_paragraphs u UNKNOWN r c))
        (\<lambda>_ c. Inr ((), c\<lparr>previous_type := rtype r\<rparr>)))"

definition write_front :: "Conversion \<Rightarrow> unit res" where
  "write_front c =
     and_then (SubElement (front c) ''set'' [] c) (\<lambda>s c.
     and_then (fixed_child (Some s) ''p'' [] WARN_SET c) (\<lambda>_ c.
       Inr ((), (xf_write (front c) c)\<lparr>text_part := ''body''\<rparr>)))"

section \<open>The body transducer\<close>

definition body_caption :: "TextRegion \<Rightarrow> nat \<Rightarrow> Conversion \<Rightarrow> nat res" where
  "body_caption r act_number c =
     (if previous_type c = Some ''header'' then
        and_then
          (if set_div c = None then
             and_then (SubElement (act c) ''div'' [(''type'', ''set'')] c) (\<lambda>s c.
               Inr ((), c\<lparr>set_div := Some s\<rparr>))
           else Inr ((), c))
          (\<lambda>_ c. and_then (region_child (set_div c) ''p'' [] r c) (\<lambda>_ c.
             Inr (act_number, c\<lparr>current_scenario := Some ''set''\<rparr>)))
      else if previous_type c = Some ''caption'' \<and> current_scenario c = None then
        Inl (AttributeError, c)
      else if previous_type c = Some ''caption'' \<and> current_scenario c = Some ''set'' then
        and_then (region_child (set_div c) ''p'' [] r c) (\<lambda>_ c. Inr (act_number, c))
      else if previous_type c = Some ''paragraph'' then
        and_then (SubElement (scene c) ''stage'' [] c) (\<lambda>st c.
        and_then (region_child (Some st) ''p'' [] r (c\<lparr>stage := Some st\<rparr>)) (\<lambda>_ c.
          Inr (act_number, c\<lparr>current_scenario := Some ''paragraph''\<rparr>)))
      else if previous_type c = Some ''caption'' \<and> current_scenario c = Some ''paragraph'' then
        and_then (region_child (stage c) ''p'' [] r c) (\<lambda>_ c. Inr (act_number, c))
      else if previous_type c \<in> {Some ''credit'', Some ''heading'', Some ''scene''} then
        and_then (region_child (if sp c \<noteq> None then sp c else scene c) ''stage'' [] r c) (\<lambda>_ c.
          Inr (act_number, c\<lparr>current_scenario := Some ''normal''\<rparr>))
      else
        and_then (region_child (if prologue c \<noteq> None then prologue c else scene c) ''stage'' [] r c)
          (\<lambda>_ c. Inr (act_number, c\<lparr>current_scenario := Some ''normal''\<rparr>)))"

text \<open>The branches of \<^verbatim>\<open>build_body\<close>, before the end-of-stream flush.\<close>

definition body_branch :: "Driver \<Rightarrow> TextRegion \<Rightarrow> nat \<Rightarrow> Conversion \<Rightarrow> nat res" where
  "body_branch d r act_number c =
     (if rtype r = Some ''header'' then
        (let c1 = (if prologue c \<noteq> None then (xf_write (prologue c) c)\<lparr>prologue := None\<rparr> else c);
             n = act_number + 1;
             c2 = (if n > 1 then xf_write (act c1) c1 else c1)
         in case Element ''div'' [(''type'', ''act'')] c2 of
              (a, c3) \<Rightarrow>
                and_then (region_child (Some a) ''head'' [] r (c3\<lparr>act := Some a\<rparr>)) (\<lambda>_ c. Inr (n, c)))
      else if rtype r = Some ''heading'' then
        (if act c = None then
           (let c1 = (if prologue c \<noteq> None then xf_write (prologue c) c else c)
            in case Element ''div'' [(''type'', ''prologue'')] c1 of
                 (p, c2) \<Rightarrow>
                   and_then (region_child (Some p) ''head'' [] r (c2\<lparr>prologue := Some p\<rparr>)) (\<lambda>_ c.
                     Inr (act_number, c)))
         else
           and_then (SubElement (act c) ''div'' [(''type'', ''scene'')] c) (\<lambda>s c.
           and_then (region_child (Some s) ''head'' [] r (c\<lparr>scene := Some s\<rparr>)) (\<lambda>_ c.
           and_then (SubElement (scene c) ''stage'' [] c) (\<lambda>st c.
           and_then (SubElement (Some st) ''castList'' [] c) (\<lambda>l c.
             Inr (act_number, c\<lparr>cast_list := Some l\<rparr>))))))
      else if rtype r = Some ''TOC-entry'' then
        and_then (region_child (cast_list c) ''castItem'' [] r c) (\<lambda>_ c. Inr (act_number, c))
      else if rtype r = Some ''signature-mark'' then
        and_then (region_child (if prologue c \<noteq> None then prologue c else scene c) ''stage'' [] r c)
          (\<lambda>_ c. Inr (act_number, c))
      else if rtype r = Some ''floating'' then
        and_then (SubElement (if prologue c \<noteq> None then prologue c else scene c) ''spGrp'' [] c) (\<lambda>g c.
        and_then (region_child (Some g) ''head'' [] r (c\<lparr>sp_grp := Some g\<rparr>)) (\<lambda>_ c.
        and_then (SubElement (sp_grp c) ''sp'' [] c) (\<lambda>s c.
        and_then (fixed_child (Some s) ''speaker'' [] ''WARNING!'' c) (\<lambda>_ c.
        and_then (fixed_child (Some s) ''p'' [] WARN_SPGRP c) (\<lambda>_ c. Inr (act_number, c))))))
      else if rtype r = Some ''credit'' \<or> rtype r = Some ''drop-capital'' then
        and_then
          (if prologue c \<noteq> None then SubElement (prologue c) ''sp'' [] c
           else
             and_then
               (if scene c = None then
                  and_then (SubElement (act c) ''div'' [(''type'', ''scene'')] c) (\<lambda>s c.
                    Inr ((), c\<lparr>scene := Some s\<rparr>))
                else Inr ((), c))
               (\<lambda>_ c. SubElement (scene c) ''sp'' [] c))
          (\<lambda>s c. and_then (region_child (Some s) ''speaker'' [] r (c\<lparr>sp := Some s\<rparr>)) (\<lambda>_ c.
             Inr (act_number, c)))
      else if rtype r = Some ''paragraph'' then
        and_then
          (if sp c = None then
             and_then (SubElement (scene c) ''sp'' [] c) (\<lambda>s c.
             and_then (fixed_child (Some s) ''speaker'' [] WARN_SPEAKER (c\<lparr>sp := Some s\<rparr>)) (\<lambda>_ c.
               Inr ((), c)))
           else Inr ((), c))
          (\<lambda>_ c. and_then (region_child (sp c) ''p'' [] r c) (\<lambda>_ c. Inr (act_number, c)))
      else if rtype r = Some ''caption'' then body_caption r act_number c
      else if rtype r = Some ''footnote'' then
        and_then (SubElement (if prologue c \<noteq> None then prologue c else scene c) ''div''
                    [(''type'', ''notes'')] c) (\<lambda>u c.
        and_then (fixed_child (Some u) ''p'' []
                    (WARN_FOOTNOTE @ '' Source file: '' @ last (str_split CHR ''/'' (current_file d))) c)
          (\<lambda>_ c.
        and_then (region_child (Some u) ''note'' [(''place'', ''foot'')] r c) (\<lambda>_ c.
          Inr (act_number, c))))
      else if rtype r = Some ''catch-word'' then
        (if scene c = None then
           (case Element ''p'' [] c of
              (p, c1) \<Rightarrow>
                (case Element ''head'' [] (set_text p WARN_CATCH_HEAD c1) of
                   (h, c2) \<Rightarrow>
                     and_then (region_text r c2) (\<lambda>s c.
                       Inr (act_number, xf_write (Some h) (xf_write (Some p) (set_text h s c))))))
         else
           and_then (SubElement (scene c) ''div'' [(''type'', ''notes'')] c) (\<lambda>u c.
           and_then (three_paragraphs u WARN_CATCH_NOTE r c) (\<lambda>_ c. Inr (act_number, c))))
      else
        and_then (SubElement (scene c) ''div'' [(''type'', ''notes'')] c) (\<lambda>u c.
        and_then (three_paragraphs u UNKNOWN r c) (\<lambda>_ c. Inr (act_number, c))))"

text \<open>
  \<^verbatim>\<open>self.current_file is self.file_list[-1]\<close> compares objects: the current file is the
  list's last object exactly when the iterator has handed out every file.
\<close>

definition build_body :: "Driver \<Rightarrow> TextRegion \<Rightarrow> nat \<Rightarrow> Conversion \<Rightarrow> nat res" where
  "build_body d r act_number c =
     and_then (body_branch d r act_number c) (\<lambda>n c.
       if file_list d = [] then Inl (IndexError, c)
       else if file_iter d = [] then
         (case text_region_list (page d) of
            [] \<Rightarrow> Inl (IndexError, c)
          | _ # _ \<Rightarrow>
              Inr (n, (if ident r = ident (last (text_region_list (page d)))
                       then xf_write (act c) c else c)\<lparr>previous_type := rtype r\<rparr>))
       else Inr (n, c\<lparr>previous_type := rtype r\<rparr>))"

section \<open>The drivers of the run\<close>

text \<open>
  The handler of a failed region prints the region, and printing a region reads the text of
  each of its lines again: a line whose text cannot be read makes the handler itself fail.
\<close>

definition report ::
  "Driver \<Rightarrow> TextRegion \<Rightarrow> py_error \<Rightarrow> Conversion \<Rightarrow> (py_error \<times> Conversion) + Conversion" where
  "report d r e c =
     (case get_texts (line r) of
        Inl e' \<Rightarrow> Inl (e', c)
      | Inr _ \<Rightarrow>
          Inr (c\<lparr>stdout := stdout c @
                      [\<lparr>msg_file = current_file d, msg_region = ident r, msg_error = e\<rparr>]\<rparr>))"

text \<open>
  \<^verbatim>\<open>next(self.file_iter, "end")\<close>, and the page of the new file unless it is \<^verbatim>\<open>"end"\<close>.
\<close>

definition advance :: "int_parser \<Rightarrow> (string \<rightharpoonup> xml) \<Rightarrow> Driver \<Rightarrow> py_error + Driver" where
  "advance pint fs d =
     (case file_iter d of
        [] \<Rightarrow> Inr (d\<lparr>current_file := ''end''\<rparr>)
      | f # rest \<Rightarrow>
          if f \<noteq> ''end'' then
            (case Page_init pint fs f 50 of
               Inl e \<Rightarrow> Inl e
             | Inr p \<Rightarrow> Inr (d\<lparr>file_iter := rest, current_file := f, page := p\<rparr>))
          else Inr (d\<lparr>file_iter := rest, current_file := f\<rparr>))"

text \<open>
  The \<^verbatim>\<open>for\<close> loop of the front phase over the regions left on the page. The second
  argument is the loop variable, which the code reads after the loop; the result holds its
  last value.
\<close>

fun front_for ::
  "Driver \<Rightarrow> TextRegion list \<Rightarrow> TextRegion option \<Rightarrow> Conversion
   \<Rightarrow> (py_error \<times> Conversion) + (TextRegion option \<times> Conversion)" where
  "front_for d [] v c = Inr (v, c)"
| "front_for d (r # rs) v c =
     (if is_marker r then
        (case write_front c of
           Inl x \<Rightarrow> Inl x
         | Inr (_, c1) \<Rightarrow> Inr (Some r, c1))
      else
        (case build_front r c of
           Inl (e, c1) \<Rightarrow>
             (case report d r e c1 of
                Inl x \<Rightarrow> Inl x
              | Inr c2 \<Rightarrow> front_for d rs (Some r) c2)
         | Inr (_, c1) \<Rightarrow> front_for d rs (Some r) c1))"

text \<open>
  The \<^verbatim>\<open>while\<close> loop of the front phase. It does not end when the files run out before
  a body marker is met, so it takes fuel: \<open>None\<close> is a loop still running.
\<close>

fun front_while ::
  "nat \<Rightarrow> int_parser \<Rightarrow> (string \<rightharpoonup> xml) \<Rightarrow> Driver \<Rightarrow> TextRegion option \<Rightarrow> Conversion
   \<Rightarrow> ((py_error \<times> Conversion) + (Driver \<times> TextRegion option \<times> Conversion)) option" where
  "front_while 0 pint fs d v c = None"
| "front_while (Suc fuel) pint fs d v c =
     (if text_part c \<noteq> ''front'' then Some (Inr (d, v, c))
      else
        (case front_for d (text_region_list (page d)) v c of
           Inl x \<Rightarrow> Some (Inl x)
         | Inr (v1, c1) \<Rightarrow>
             (case v1 of
                None \<Rightarrow> Some (Inl (NameError, c1))
              | Some r \<Rightarrow>
                  (case text_region_list (page d) of
                     [] \<Rightarrow> Some (Inl (IndexError, c1))
                   | _ # _ \<Rightarrow>
                       (case (if ident r = ident (last (text_region_list (page d)))
                              then advance pint fs d else Inr d) of
                          Inl e \<Rightarrow> Some (Inl (e, c1))
                        | Inr d1 \<Rightarrow>
                            (case text_region_list (page d1) of
                               [] \<Rightarrow> Some (Inl (IndexError, c1))
                             | r0 # _ \<Rightarrow>
                                 if is_marker r0 then
                                   (case write_front c1 of
                                      Inl x \<Rightarrow> Some (Inl x)
                                    | Inr (_, c2) \<Rightarrow> Some (Inr (d1, v1, c2)))
                                 else front_while fuel pint fs d1 v1 c1))))))"

text \<open>The \<^verbatim>\<open>for\<close> loop of the body phase.\<close>

fun body_for ::
  "Driver \<Rightarrow> TextRegion list \<Rightarrow> TextRegion option \<Rightarrow> nat \<Rightarrow> Conversion
   \<Rightarrow> (py_error \<times> Conversion) + (TextRegion option \<times> nat \<times> Conversion)" where
  "body_for d [] v n c = Inr (v, n, c)"
| "body_for d (r # rs) v n c =
     (case build_body d r n c of
        Inl (e, c1) \<Rightarrow>
          (case report d r e c1 of
             Inl x \<Rightarrow> Inl x
           | Inr c2 \<Rightarrow> body_for d rs (Some r) n c2)
      | Inr (n1, c1) \<Rightarrow> body_for d rs (Some r) n1 c1)"

text \<open>The \<^verbatim>\<open>while\<close> loop of the body phase.\<close>

function body_while ::
  "int_parser \<Rightarrow> (string \<rightharpoonup> xml) \<Rightarrow> Driver \<Rightarrow> TextRegion option \<Rightarrow> nat \<Rightarrow> Conversion
   \<Rightarrow> (py_error \<times> Conversion) + Conversion" where
  "body_while pint fs d v n c =
     (if current_file d = ''end'' then Inr c
      else
        (case body_for d (text_region_list (page d)) v n c of
           Inl x \<Rightarrow> Inl x
         | Inr (v1, n1, c1) \<Rightarrow>
             (case v1 of
                None \<Rightarrow> Inl (NameError, c1)
              | Some r \<Rightarrow>
                  (case text_region_list (page d) of
                     [] \<Rightarrow> Inl (IndexError, c1)
                   | _ # _ \<Rightarrow>
                       if ident r = ident (last (text_region_list (page d))) then
                         (case advance pint fs d of
                            Inl e \<Rightarrow> Inl (e, c1)
                          | Inr d1 \<Rightarrow> body_while pint fs d1 v1 n1 c1)
                       else body_while pint fs d v1 n1 c1))))"
  by pat_completeness auto

lemma body_for_last:
  "body_for d rs v n c = Inr (v1, n1, c1) \<Longrightarrow> rs \<noteq> [] \<Longrightarrow> v1 = Some (last rs)"
proof (induction rs arbitrary: v n c)
  case Nil
  then show ?case by simp
next
  case (Cons r rs)
  show ?case
  proof (cases "rs = []")
    case True
    with Cons.prems show ?thesis
      by (auto split: sum.splits prod.splits)
  next
    case False
    with Cons show ?thesis
      by (auto split: sum.splits prod.splits)
  qed
qed

termination body_while
  apply (relation "measure (\<lambda>(pint, fs, d, v, n, c).
          length (file_iter d) + (if current_file d = ''end'' then 0 else 1))")
    apply simp
   apply (auto simp: advance_def split: list.splits if_splits sum.splits)[1]
  apply (auto simp del: body_for.simps dest!: body_for_last)
  done

declare body_while.simps [simp del]

section \<open>The run\<close>

datatype outcome =
    Uncaught py_error
  | Aborted py_error "message list"
  | Written "event list" "message list"

text \<open>
  \<open>Uncaught\<close>: the constructor raised, outside every handler. \<open>Aborted\<close>: the handler around
  the run caught an error, printed it, and no output file was written. \<open>Written\<close>: the
  output file holds the fixed prolog followed by these events of the writer.
\<close>

definition new_conversion :: Conversion where
  "new_conversion =
     \<lparr>text_part = ''front'', previous_type = None, front = None, title_page = None,
      is_title_page_created = False, div_preface = None, prologue = None, act = None,
      scene = None, stage = None, cast_list = None, cast_item = None, sp_grp = None,
      sp = None, set_div = None, current_scenario = None, heap = [], xf = [], stdout = []\<rparr>"

text \<open>
  \<^verbatim>\<open>Conversion.__init__\<close>, given what \<^verbatim>\<open>glob.glob\<close> returned (in any order). With no
  file at all the first page is read from the path \<^verbatim>\<open>"end"\<close>.
\<close>

definition Conversion_init ::
  "int_parser \<Rightarrow> (string \<rightharpoonup> xml) \<Rightarrow> string list \<Rightarrow> py_error + (Driver \<times> Conversion)" where
  "Conversion_init pint fs files =
     (let fl = sort files;
          cur = (case fl of [] \<Rightarrow> ''end'' | f # _ \<Rightarrow> f)
      in case Page_init pint fs cur 50 of
           Inl e \<Rightarrow> Inl e
         | Inr p \<Rightarrow>
             Inr (\<lparr>file_list = fl, file_iter = tl fl, current_file = cur, page = p\<rparr>,
                  new_conversion))"

definition envelope :: "event list" where
  "envelope =
     [ProcInst ''xml-stylesheet'' ''type=\"text/css\" href=\"../css/tei.css\"'',
      ProcInst ''xml-model''
        ''href=\"https://dracor.org/schema.rng\" type=\"application/xml\" schematypens=\"http://relaxng.org/ns/structure/1.0\"'',
      Start ''TEI'' [(''xml:id'', ''ger000''), (''xml:lang'', ''de''),
                     (''xmlns'', ''http://www.tei-c.org/ns/1.0'')],
      Start ''teiHeader'' [], Start ''fileDesc'' [],
      Start ''titleStmt'' [], Start ''title'' [], Close, Close,
      Start ''publicationStmt'' [], Start ''publisher'' [], Close, Close,
      Start ''sourceDesc'' [], Start ''p'' [], Close, Close,
      Close, Close,
      Start ''text'' []]"

definition create_tei ::
  "nat \<Rightarrow> int_parser \<Rightarrow> (string \<rightharpoonup> xml) \<Rightarrow> Driver \<Rightarrow> Conversion \<Rightarrow> outcome option" where
  "create_tei fuel pint fs d c0 =
     (let c = c0\<lparr>xf := xf c0 @ envelope\<rparr>
      in case text_region_list (page d) of
           [] \<Rightarrow> Some (Aborted IndexError (stdout c))
         | r0 # _ \<Rightarrow>
             (let c1 = (if is_marker r0 then c\<lparr>text_part := ''body''\<rparr> else c)
              in case (if text_part c1 = ''front'' then
                         (case Element ''front'' [] c1 of
                            (a, c2) \<Rightarrow> front_while fuel pint fs d None (c2\<lparr>front := Some a\<rparr>))
                       else Some (Inr (d, None, c1))) of
                   None \<Rightarrow> None
                 | Some (Inl (e, c3)) \<Rightarrow> Some (Aborted e (stdout c3))
                 | Some (Inr (d1, v, c3)) \<Rightarrow>
                     if text_part c3 = ''body'' then
                       (case body_while pint fs d1 v 0 (c3\<lparr>xf := xf c3 @ [Start ''body'' []]\<rparr>) of
                          Inl (e, c4) \<Rightarrow> Some (Aborted e (stdout c4))
                        | Inr c4 \<Rightarrow> Some (Written (xf c4 @ [Close, Close, Close]) (stdout c4)))
                     else Some (Written (xf c3 @ [Close, Close]) (stdout c3))))"

definition run :: "nat \<Rightarrow> int_parser \<Rightarrow> (string \<rightharpoonup> xml) \<Rightarrow> string list \<Rightarrow> outcome option" where
  "run fuel pint fs files =
     (case Conversion_init pint fs files of
        Inl e \<Rightarrow> Some (Uncaught e)
      | Inr (d, c) \<Rightarrow> create_tei fuel pint fs d c)"

section \<open>Sample documents\<close>

text \<open>
  The integer parser the sample documents are run with. It is \<^verbatim>\<open>int(s)\<close> on tokens of
  decimal digits, which may be grouped by single underscores, after at most one sign, with
  blanks, tabs and line breaks around them (the six characters of \<open>is_space\<close>); every
  token of the samples that reaches \<^verbatim>\<open>int\<close> is a string of decimal digits. On a token
  with any other character it answers \<open>None\<close>, which is not meant to say what \<^verbatim>\<open>int\<close>
  does there.
\<close>

definition is_space :: "char \<Rightarrow> bool" where
  "is_space c = (c \<in> set [CHR 0x09, CHR 0x0A, CHR 0x0B, CHR 0x0C, CHR 0x0D, CHR 0x20])"

definition is_digit :: "char \<Rightarrow> bool" where
  "is_digit c = (c \<in> set ''0123456789'')"

definition digit_val :: "char \<Rightarrow> int" where
  "digit_val c = int (of_char c) - 48"

fun py_digits :: "string \<Rightarrow> int \<Rightarrow> int option" where
  "py_digits [] acc = None"
| "py_digits [c] acc = (if is_digit c then Some (acc * 10 + digit_val c) else None)"
| "py_digits (c # d # cs) acc =
     (if \<not> is_digit c then None
      else if d = CHR ''_'' then py_digits cs (acc * 10 + digit_val c)
      else py_digits (d # cs) (acc * 10 + digit_val c))"

definition strip :: "string \<Rightarrow> string" where
  "strip s = rev (dropWhile is_space (rev (dropWhile is_space s)))"

definition ascii_int :: int_parser where
  "ascii_int s =
     (case strip s of
        [] \<Rightarrow> None
      | c # cs \<Rightarrow>
          if c = CHR ''-'' then map_option uminus (py_digits cs 0)
          else if c = CHR ''+'' then py_digits cs 0
          else py_digits (c # cs) 0)"

definition mk_equiv :: "string \<Rightarrow> string \<Rightarrow> xml" where
  "mk_equiv i t = Elem ''TextEquiv'' [(''index'', i)] None [Elem ''Unicode'' [] (Some t) []]"

definition mk_line :: "string \<Rightarrow> string \<Rightarrow> xml" where
  "mk_line pts t =
     Elem ''TextLine'' [] None [Elem ''Coords'' [(''points'', pts)] None [], mk_equiv ''0'' t]"

definition mk_region :: "string \<Rightarrow> string \<Rightarrow> xml list \<Rightarrow> xml" where
  "mk_region i ty ls = Elem ''TextRegion'' [(''id'', i), (''type'', ty)] None ls"

definition simple_region :: "string \<Rightarrow> string \<Rightarrow> string \<Rightarrow> xml" where
  "simple_region i ty t = mk_region i ty [mk_line ''0,0 1,1'' t]"

definition mk_page :: "string list \<Rightarrow> xml list \<Rightarrow> xml" where
  "mk_page ro rs =
     Elem ''PcGts'' [] None
       [Elem ''Page'' [] None
          (Elem ''ReadingOrder'' [] None
             [Elem ''OrderedGroup'' [] None
                (map (\<lambda>r. Elem ''RegionRefIndexed'' [(''regionRef'', r)] None []) ro)] # rs)]"

text \<open>Three regions, of which the reading order names two (and one that does not exist).\<close>

definition fs_order :: "string \<rightharpoonup> xml" where
  "fs_order = map_of
     [(''p.xml'', mk_page [''r3'', ''r9'', ''r1'']
                    [simple_region ''r1'' ''other'' ''one'', simple_region ''r2'' ''other'' ''two'',
                     simple_region ''r3'' ''other'' ''three''])]"


text \<open>
  A line with three transcription alternatives: one without an index, one with index 9 and
  one with index 10.
\<close>

definition line_alts :: TextLine where
  "line_alts = TextLine_init
     (Elem ''TextLine'' [] None
        [Elem ''Coords'' [(''points'', ''0,0 1,1'')] None [],
         Elem ''TextEquiv'' [] None [Elem ''Unicode'' [] (Some ''plain'') []],
         mk_equiv ''9'' ''nine'', mk_equiv ''10'' ''ten''])
     (0, 0)"

text \<open>
  A region of four lines: the second has an empty \<^verbatim>\<open>Unicode\<close>, the third no
  transcription at all.
\<close>

definition region_blank :: xml where
  "region_blank = mk_region ''r1'' ''paragraph''
     [mk_line ''0,10 1,11'' ''first'',
      Elem ''TextLine'' [] None
        [Elem ''Coords'' [(''points'', ''0,20 1,21'')] None [],
         Elem ''TextEquiv'' [(''index'', ''0'')] None [Elem ''Unicode'' [] None []]],
      Elem ''TextLine'' [] None [Elem ''Coords'' [(''points'', ''0,30 1,31'')] None []],
      mk_line ''0,40 1,41'' ''last'']"

section \<open>Notions the statements use\<close>

text \<open>An indexed alternative with the text of its \<^verbatim>\<open>Unicode\<close> child.\<close>

definition unicode_text :: "string \<times> xml \<Rightarrow> string \<times> string option" where
  "unicode_text p = (fst p, text_of (the (first (findall_child (snd p) ''Unicode''))))"

text \<open>A line text as a string: Python's \<^verbatim>\<open>None\<close> counts as the empty string.\<close>

definition text_or_empty :: "string option \<Rightarrow> string" where
  "text_or_empty t = (case t of None \<Rightarrow> [] | Some s \<Rightarrow> s)"

text \<open>
  Two pages; the second holds a region whose polygon has a malformed token, and a region
  that is in order.
\<close>

definition fs_bad_geometry :: "string \<rightharpoonup> xml" where
  "fs_bad_geometry = map_of
     [(''a.xml'', mk_page [''r1'', ''r2'']
         [simple_region ''r1'' ''header'' ''Akt'', simple_region ''r2'' ''heading'' ''Szene'']),
      (''b.xml'', mk_page [''r1'', ''r2'']
         [mk_region ''r1'' ''credit'' [mk_line ''1,2 x'' ''Sprecher''],
          simple_region ''r2'' ''paragraph'' ''Text''])]"

text \<open>The spec's first scenario: two pages of one region each, with empty ordering lists.\<close>

definition fs_empty_order :: "string \<rightharpoonup> xml" where
  "fs_empty_order = map_of
     [(''a.xml'', mk_page [] [simple_region ''r1'' ''other'' ''Hello'']),
      (''b.xml'', mk_page [] [simple_region ''r1'' ''header'' ''Act One''])]"

text \<open>A step that leaves the phase of the run as it is, whether it returns or raises.\<close>

definition same_part :: "Conversion \<Rightarrow> 'a res \<Rightarrow> bool" where
  "same_part c m =
     (case m of
        Inl (e, c') \<Rightarrow> text_part c' = text_part c
      | Inr (a, c') \<Rightarrow> text_part c' = text_part c)"

text \<open>The page of a file can be constructed.\<close>

definition loads :: "int_parser \<Rightarrow> (string \<rightharpoonup> xml) \<Rightarrow> string \<Rightarrow> bool" where
  "loads pint fs f = (\<exists>p. Page_init pint fs f 50 = Inr p)"

text \<open>
  No file waiting in the iterator is called \<^verbatim>\<open>end\<close>, and the current file is
  \<^verbatim>\<open>end\<close> only when the iterator is exhausted.
\<close>

definition plain_names :: "Driver \<Rightarrow> bool" where
  "plain_names d =
     (''end'' \<notin> set (file_iter d) \<and> (current_file d = ''end'' \<longrightarrow> file_iter d = []))"

text \<open>
  A GeometryError of a region element: its lines cannot be resolved (a malformed or missing
  polygon), or no usable line is left.
\<close>

definition geometry_error :: "int_parser \<Rightarrow> xml \<Rightarrow> bool" where
  "geometry_error pint e = (case get_lines pint e of Inl err \<Rightarrow> True | Inr ls \<Rightarrow> ls = [])"

text \<open>
  One page whose first region belongs to the front matter and whose second region is a
  body marker that is not the last region of the page.
\<close>

definition fs_midpage :: "string \<rightharpoonup> xml" where
  "fs_midpage = map_of
     [(''a.xml'', mk_page [''r1'', ''r2'', ''r3'']
         [simple_region ''r1'' ''catch-word'' ''Titel'', simple_region ''r2'' ''header'' ''Akt'',
          simple_region ''r3'' ''heading'' ''Szene''])]"

text \<open>Two pages; the body marker is the last region of the first page.\<close>

definition fs_marker_last :: "string \<rightharpoonup> xml" where
  "fs_marker_last = map_of
     [(''a.xml'', mk_page [''r1'', ''r2'']
         [simple_region ''r1'' ''other'' ''Vorwort'', simple_region ''r2'' ''header'' ''Akt'']),
      (''b.xml'', mk_page [''r1'', ''r2'']
         [simple_region ''r1'' ''header'' ''Zweiter Akt'', simple_region ''r2'' ''heading'' ''Szene''])]"

text \<open>One page: an act header followed by a paragraph, with no scene heading between.\<close>

definition fs_lost_act :: "string \<rightharpoonup> xml" where
  "fs_lost_act = map_of
     [(''a.xml'', mk_page [''r1'', ''r2'']
         [simple_region ''r1'' ''header'' ''Akt'', simple_region ''r2'' ''paragraph'' ''Text''])]"

text \<open>One page: act, scene, speaker, and two captions in a row.\<close>

definition fs_captions :: "string \<rightharpoonup> xml" where
  "fs_captions = map_of
     [(''a.xml'', mk_page [''r1'', ''r2'', ''r3'', ''r4'', ''r5'']
         [simple_region ''r1'' ''header'' ''Akt'', simple_region ''r2'' ''heading'' ''Szene'',
          simple_region ''r3'' ''credit'' ''Sprecher'', simple_region ''r4'' ''caption'' ''erste'',
          simple_region ''r5'' ''caption'' ''zweite''])]"

definition caption_region :: TextRegion where
  "caption_region = projr (TextRegion_init ascii_int 3 (simple_region ''r4'' ''caption'' ''erste'') 50)"

definition caption_driver :: Driver where
  "caption_driver = fst (projr (Conversion_init ascii_int fs_captions [''a.xml'']))"

text \<open>
  A body state with an act (address 0), a scene in it (1) and a speech in the scene (2),
  after a credit; and the same state after a caption of the normal scenario.
\<close>

definition state_after_credit :: Conversion where
  "state_after_credit =
     new_conversion
       \<lparr>text_part := ''body'', previous_type := Some ''credit'',
        act := Some 0, scene := Some 1, sp := Some 2,
        heap := [\<lparr>etag = ''div'', eattrib = [(''type'', ''act'')], etext = None, echildren = [1]\<rparr>,
                 \<lparr>etag = ''div'', eattrib = [(''type'', ''scene'')], etext = None, echildren = [2]\<rparr>,
                 \<lparr>etag = ''sp'', eattrib = [], etext = None, echildren = []\<rparr>]\<rparr>"

definition state_after_caption :: Conversion where
  "state_after_caption =
     state_after_credit\<lparr>previous_type := Some ''caption'', current_scenario := Some ''normal''\<rparr>"

text \<open>
  What a caption of the normal scenario does to the state: one new element, a
  \<^verbatim>\<open>stage\<close> with the text, appended to the children of the parent; the scenario marker
  is normal and the previous type is the caption's.
\<close>

definition stage_added :: "Conversion \<Rightarrow> nat \<Rightarrow> string \<Rightarrow> Conversion \<Rightarrow> bool" where
  "stage_added c parent t c' =
     (length (heap c') = Suc (length (heap c))
      \<and> heap c' ! length (heap c) = \<lparr>etag = ''stage'', eattrib = [], etext = Some t, echildren = []\<rparr>
      \<and> echildren (heap c' ! parent) = echildren (heap c ! parent) @ [length (heap c)]
      \<and> current_scenario c' = Some ''normal''
      \<and> previous_type c' = Some ''caption'')"


text \<open>The region of four lines, constructed.\<close>

definition blank_region :: TextRegion where
  "blank_region = projr (TextRegion_init ascii_int 0 region_blank 50)"

text \<open>The elements of the heap by tag and text, in the order of their creation.\<close>

definition labels :: "Conversion \<Rightarrow> (string \<times> string option) list" where
  "labels c = map (\<lambda>e. (etag e, etext e)) (heap c)"

text \<open>The tags of the elements that take the text of a region.\<close>

definition text_tags :: "string list" where
  "text_tags = [''head'', ''titlePart'', ''p'', ''role'', ''roleDesc'', ''note'', ''castItem'',
                ''stage'', ''speaker'']"

text \<open>
  The texts a step writes that are not the text of the region: the fixed warnings, the
  footnote warning with the name of the source file, and the label of the region's type.
\<close>

definition diagnostic :: "Driver \<Rightarrow> TextRegion \<Rightarrow> string \<Rightarrow> bool" where
  "diagnostic d r w =
     (w \<in> set [UNKNOWN, WARN_HEAD, WARN_TITLE, WARN_ROLE, WARN_FOOTNOTE, WARN_SPGRP,
                ''WARNING!'', WARN_SPEAKER, WARN_CATCH_HEAD, WARN_CATCH_NOTE,
                WARN_FOOTNOTE @ '' Source file: '' @ last (str_split CHR ''/'' (current_file d))]
      \<or> (case rtype r of None \<Rightarrow> False | Some ty \<Rightarrow> w = ''type = '' @ ty))"

text \<open>
  What a step on region \<open>r\<close> with region text \<open>t\<close> does to the texts of the elements: the
  elements that existed keep their tag and text; the step adds elements, of which one with
  a tag of \<open>text_tags\<close> has the text \<open>t\<close>, and each has no text, the text \<open>t\<close>, or a
  diagnostic text.
\<close>

definition step_texts ::
  "Driver \<Rightarrow> TextRegion \<Rightarrow> string \<Rightarrow> Conversion \<Rightarrow> Conversion \<Rightarrow> bool" where
  "step_texts d r t c c' =
     (\<exists>news tg.
        labels c' = labels c @ news
        \<and> tg \<in> set text_tags \<and> (tg, Some t) \<in> set news
        \<and> (\<forall>x \<in> set news. snd x = None \<or> snd x = Some t
                              \<or> (\<exists>w. snd x = Some w \<and> diagnostic d r w)))"

section \<open>Reading order of a page\<close>

lemma make_dict_inv_aux:
  "(\<And>k v. map_of d k = Some v \<Longrightarrow> region_id v = k) \<Longrightarrow>
   map_of (fold (\<lambda>r d. AList.update (region_id r) r d) rs d) k = Some v \<Longrightarrow> region_id v = k"
proof (induction rs arbitrary: d)
  case Nil
  then show ?case by simp
next
  case (Cons r rs)
  show ?case
  proof (rule Cons.IH [of "AList.update (region_id r) r d"])
    fix k' v'
    assume "map_of (AList.update (region_id r) r d) k' = Some v'"
    then show "region_id v' = k'"
      using Cons.prems(1) by (auto simp: update_conv' split: if_splits)
  next
    show "map_of (fold (\<lambda>r d. AList.update (region_id r) r d) rs (AList.update (region_id r) r d)) k
          = Some v"
      using Cons.prems(2) by simp
  qed
qed

lemma make_dict_key: "map_of (make_dict rs) k = Some v \<Longrightarrow> region_id v = k"
  unfolding make_dict_def by (rule make_dict_inv_aux [of "[]"]) auto

lemma comprehension_map_filter:
  "[f i. i \<leftarrow> xs, P i] = map f (filter P xs)"
  by (induction xs) auto

lemma in_dict_iff: "(map_of d i \<noteq> None) = (i \<in> fst ` set d)"
  by (simp add: map_of_eq_None_iff)

lemma sort_text_region_dict [simp]: "text_region_dict (sort_text_region q) = text_region_dict q"
  by (simp add: sort_text_region_def)

lemma sort_text_region_order [simp]: "reading_order (sort_text_region q) = reading_order q"
  by (simp add: sort_text_region_def)

lemma sort_text_region_list:
  assumes "text_region_dict q \<noteq> []"
  shows "text_region_list (sort_text_region q)
         = map (\<lambda>i. the (map_of (text_region_dict q) i))
             (filter (\<lambda>i. i \<in> fst ` set (text_region_dict q)) (reading_order q))"
proof -
  have "text_region_list (sort_text_region q)
        = [the (map_of (text_region_dict q) i).
             i \<leftarrow> reading_order q, map_of (text_region_dict q) i \<noteq> None]"
    using assms by (simp add: sort_text_region_def)
  then show ?thesis
    by (simp only: comprehension_map_filter in_dict_iff)
qed

lemma Page_init_list:
  assumes "Page_init pint fs f lh = Inr p" and "text_region_dict p \<noteq> []"
  shows "text_region_list p
           = map (\<lambda>i. the (map_of (text_region_dict p) i))
               (filter (\<lambda>i. i \<in> fst ` set (text_region_dict p)) (reading_order p))"
proof -
  from assms(1) obtain q where pq: "p = sort_text_region q"
    by (auto simp: Page_init_def Let_def split: option.splits sum.splits)
  have ne: "text_region_dict q \<noteq> []" using assms(2) pq by simp
  show ?thesis using sort_text_region_list [OF ne] by (simp add: pq)
qed

lemma ids_of_lookups:
  "(\<And>k v. map_of d k = Some v \<Longrightarrow> region_id v = k) \<Longrightarrow>
   map region_id (map (\<lambda>i. the (map_of d i)) (filter (\<lambda>i. i \<in> fst ` set d) ro))
   = filter (\<lambda>i. i \<in> fst ` set d) ro"
proof (induction ro)
  case Nil
  show ?case by simp
next
  case (Cons i ro)
  show ?case
  proof (cases "i \<in> fst ` set d")
    case True
    then obtain v where "map_of d i = Some v"
      using in_dict_iff [of d i] by auto
    then show ?thesis using Cons True by simp
  next
    case False
    then show ?thesis using Cons by simp
  qed
qed

text \<open>
  C1. On a page whose region mapping is not empty, the resolved region list holds, in the
  order of the group-ordering list, exactly the regions the mapping has for that list's
  identifiers: the identifiers of the result are the ordering list filtered by membership
  in the mapping, each entry is the mapping's region for its identifier, and a region of
  the mapping whose identifier is not in the ordering list is not in the result.
\<close>

theorem sort_text_region_resolved:
  assumes "Page_init pint fs f lh = Inr p" and "text_region_dict p \<noteq> []"
  shows "map region_id (text_region_list p)
           = filter (\<lambda>i. i \<in> fst ` set (text_region_dict p)) (reading_order p)
         \<and> text_region_list p
           = map (\<lambda>i. the (map_of (text_region_dict p) i))
               (filter (\<lambda>i. i \<in> fst ` set (text_region_dict p)) (reading_order p))
         \<and> (\<forall>r \<in> snd ` set (text_region_dict p).
               region_id r \<notin> set (reading_order p) \<longrightarrow> r \<notin> set (text_region_list p))"
proof -
  from assms(1) obtain q rs where
    pq: "p = sort_text_region q" and qd: "text_region_dict q = make_dict rs"
    by (auto simp: Page_init_def Let_def split: option.splits sum.splits)
  have ne: "text_region_dict q \<noteq> []" using assms(2) pq by simp
  have lst: "text_region_list p
           = map (\<lambda>i. the (map_of (text_region_dict p) i))
               (filter (\<lambda>i. i \<in> fst ` set (text_region_dict p)) (reading_order p))"
    using assms by (rule Page_init_list)
  have key: "\<And>k v. map_of (text_region_dict p) k = Some v \<Longrightarrow> region_id v = k"
    using make_dict_key by (simp add: pq qd)
  have ids: "map region_id (text_region_list p)
           = filter (\<lambda>i. i \<in> fst ` set (text_region_dict p)) (reading_order p)"
    by (subst lst) (rule ids_of_lookups [OF key])
  have drop: "\<forall>r \<in> snd ` set (text_region_dict p).
               region_id r \<notin> set (reading_order p) \<longrightarrow> r \<notin> set (text_region_list p)"
  proof (intro ballI impI notI)
    fix r assume a: "region_id r \<notin> set (reading_order p)" "r \<in> set (text_region_list p)"
    then have "region_id r \<in> set (map region_id (text_region_list p))" by simp
    then have "region_id r \<in> set (reading_order p)" unfolding ids by simp
    with a show False by simp
  qed
  show ?thesis using ids lst drop by blast
qed

theorem sort_text_region_resolved_witness:
  "Page_init ascii_int fs_order ''p.xml'' 50 = Inr (projr (Page_init ascii_int fs_order ''p.xml'' 50))
   \<and> text_region_dict (projr (Page_init ascii_int fs_order ''p.xml'' 50)) \<noteq> []
   \<and> map fst (text_region_dict (projr (Page_init ascii_int fs_order ''p.xml'' 50)))
       = [Some ''r1'', Some ''r2'', Some ''r3'']
   \<and> reading_order (projr (Page_init ascii_int fs_order ''p.xml'' 50))
       = [Some ''r3'', Some ''r9'', Some ''r1'']
   \<and> map region_id (text_region_list (projr (Page_init ascii_int fs_order ''p.xml'' 50)))
       = [Some ''r3'', Some ''r1'']"
proof -
  let ?p = "projr (Page_init ascii_int fs_order ''p.xml'' 50)"
  have h1: "Page_init ascii_int fs_order ''p.xml'' 50 = Inr ?p" by code_simp
  have h2: "text_region_dict ?p \<noteq> []" by code_simp
  have k: "map fst (text_region_dict ?p) = [Some ''r1'', Some ''r2'', Some ''r3'']" by code_simp
  have o: "reading_order ?p = [Some ''r3'', Some ''r9'', Some ''r1'']" by code_simp
  have e: "filter (\<lambda>i. i \<in> fst ` set (text_region_dict ?p)) (reading_order ?p)
           = [Some ''r3'', Some ''r1'']"
    by code_simp
  have "map region_id (text_region_list ?p)
        = filter (\<lambda>i. i \<in> fst ` set (text_region_dict ?p)) (reading_order ?p)"
    using sort_text_region_resolved [OF h1 h2] by (rule conjunct1)
  then have "map region_id (text_region_list ?p) = [Some ''r3'', Some ''r1'']"
    by (simp only: e)
  with h1 h2 k o show ?thesis by blast
qed

section \<open>Line order of a region\<close>



section \<open>Text of a line and of a region\<close>

lemma sort_key_head:
  assumes "sort_key f xs = p # ps"
  shows "p \<in> set xs \<and> (\<forall>q \<in> set xs. f p \<le> f q) \<and> first (filter (\<lambda>q. f q = f p) xs) = Some p"
proof -
  have s: "sorted (map f (p # ps))" using sorted_sort_key [of f xs] assms by simp
  have m: "set (p # ps) = set xs" using set_sort [of f xs] assms by simp
  have 1: "p \<in> set xs" using m by auto
  have 2: "\<forall>q \<in> set xs. f p \<le> f q" using s m by auto
  have "filter (\<lambda>q. f q = f p) (p # ps) = filter (\<lambda>q. f q = f p) xs"
    using sort_key_stable [of f "f p" xs] assms by simp
  then have 3: "first (filter (\<lambda>q. f q = f p) xs) = Some p"
    by (metis (mono_tags, lifting) filter.simps(2) first_def list.simps(5))
  show ?thesis using 1 2 3 by blast
qed

lemma equiv_pairs_total:
  "\<forall>p \<in> set es. findall_child (snd p) ''Unicode'' \<noteq> [] \<Longrightarrow>
   equiv_pairs es = Inr (map unicode_text es)"
proof (induction es)
  case Nil
  show ?case by simp
next
  case (Cons p es)
  obtain i e where p: "p = (i, e)" by (cases p)
  from Cons.prems have "findall_child e ''Unicode'' \<noteq> []" by (simp add: p)
  then obtain u us where u: "findall_child e ''Unicode'' = u # us" by (cases "findall_child e ''Unicode''") auto
  from Cons have "equiv_pairs es = Inr (map unicode_text es)" by simp
  then show ?case by (simp add: p u first_def unicode_text_def)
qed

lemma indexed_concat_filter:
  "map snd (concat (map (\<lambda>e. case get e ''index'' of None \<Rightarrow> [] | Some i \<Rightarrow> [(i, e)]) xs))
   = filter (\<lambda>e. get e ''index'' \<noteq> None) xs"
  by (induction xs) (auto split: option.splits)

lemma indexed_equivs_filter:
  "map snd (indexed_equivs l) = filter (\<lambda>e. get e ''index'' \<noteq> None) (findall_child l ''TextEquiv'')"
  unfolding indexed_equivs_def by (rule indexed_concat_filter)

lemma indexed_equivs_index:
  "p \<in> set (indexed_equivs l) \<Longrightarrow> get (snd p) ''index'' = Some (fst p)"
  unfolding indexed_equivs_def by (auto split: option.splits)

lemma first_filter_map:
  assumes "first (filter (\<lambda>q. fst q = i) (map unicode_text es)) = Some q"
  shows "\<exists>e. first (filter (\<lambda>p. fst p = i) es) = Some (i, e) \<and> q = unicode_text (i, e)"
  using assms
proof (induction es)
  case Nil
  then show ?case by (simp add: first_def)
next
  case (Cons p es)
  show ?case
  proof (cases "fst p = i")
    case True
    with Cons.prems have "q = unicode_text p" by (simp add: first_def unicode_text_def)
    moreover have "p = (i, snd p)" using True by (cases p) simp
    ultimately show ?thesis using True by (auto simp: first_def)
  next
    case False
    with Cons show ?thesis by (simp add: unicode_text_def)
  qed
qed

text \<open>
  C8. The canonical text of a line: the alternatives considered are exactly the
  \<^verbatim>\<open>TextEquiv\<close> children that carry an index attribute; with none of them the text
  is the empty string; otherwise it is the text of the alternative whose index is smallest
  in the lexicographic order of strings (the first such alternative in the document). The
  hypothesis is PAGE's schema: an indexed alternative has its \<^verbatim>\<open>Unicode\<close> child.
\<close>

theorem get_text_smallest_index:
  assumes "\<forall>p \<in> set (indexed_equivs (text_line l)). findall_child (snd p) ''Unicode'' \<noteq> []"
  shows "map snd (indexed_equivs (text_line l))
           = filter (\<lambda>e. get e ''index'' \<noteq> None) (findall_child (text_line l) ''TextEquiv'')
         \<and> (\<forall>p \<in> set (indexed_equivs (text_line l)). get (snd p) ''index'' = Some (fst p))
         \<and> (indexed_equivs (text_line l) = [] \<longrightarrow> get_text l = Inr (Some []))
         \<and> (indexed_equivs (text_line l) \<noteq> [] \<longrightarrow>
              (\<exists>i e u. first (filter (\<lambda>p. fst p = i) (indexed_equivs (text_line l))) = Some (i, e)
                     \<and> (\<forall>p \<in> set (indexed_equivs (text_line l)). i \<le> fst p)
                     \<and> first (findall_child e ''Unicode'') = Some u
                     \<and> get_text l = Inr (text_of u)))"
proof -
  let ?es = "indexed_equivs (text_line l)"
  have pairs: "equiv_pairs ?es = Inr (map unicode_text ?es)"
    using assms by (rule equiv_pairs_total)
  have c1: "map snd ?es = filter (\<lambda>e. get e ''index'' \<noteq> None) (findall_child (text_line l) ''TextEquiv'')"
    by (rule indexed_equivs_filter)
  have c2: "\<forall>p \<in> set ?es. get (snd p) ''index'' = Some (fst p)"
    using indexed_equivs_index by blast
  have c3: "?es = [] \<longrightarrow> get_text l = Inr (Some [])"
    by (simp add: get_text_def)
  have c4: "?es \<noteq> [] \<longrightarrow>
              (\<exists>i e u. first (filter (\<lambda>p. fst p = i) ?es) = Some (i, e)
                     \<and> (\<forall>p \<in> set ?es. i \<le> fst p)
                     \<and> first (findall_child e ''Unicode'') = Some u
                     \<and> get_text l = Inr (text_of u))"
  proof
    assume ne: "?es \<noteq> []"
    then have "sort_key fst (map unicode_text ?es) \<noteq> []"
      by (metis length_0_conv length_map length_sort)
    then obtain q qs where s: "sort_key fst (map unicode_text ?es) = q # qs"
      by (cases "sort_key fst (map unicode_text ?es)") auto
    from sort_key_head [OF s]
    have m: "\<forall>r \<in> set (map unicode_text ?es). fst q \<le> fst r"
      and f: "first (filter (\<lambda>r. fst r = fst q) (map unicode_text ?es)) = Some q"
      by blast+
    from first_filter_map [OF f] obtain e where
      e: "first (filter (\<lambda>p. fst p = fst q) ?es) = Some (fst q, e)" and q: "q = unicode_text (fst q, e)"
      by blast
    have mem: "(fst q, e) \<in> set ?es"
    proof -
      from e obtain rest where "filter (\<lambda>p. fst p = fst q) ?es = (fst q, e) # rest"
        by (auto simp: first_def split: list.splits)
      then have "(fst q, e) \<in> set (filter (\<lambda>p. fst p = fst q) ?es)" by simp
      then show ?thesis by simp
    qed
    then have "findall_child e ''Unicode'' \<noteq> []" using assms by auto
    then obtain u us where u: "findall_child e ''Unicode'' = u # us"
      by (cases "findall_child e ''Unicode''") auto
    have min: "\<forall>p \<in> set ?es. fst q \<le> fst p"
      using m by (auto simp: unicode_text_def)
    have "snd q = text_of u" using q u by (cases q) (simp add: unicode_text_def first_def)
    then have "get_text l = Inr (text_of u)"
      by (simp add: get_text_def pairs s)
    moreover have "first (findall_child e ''Unicode'') = Some u" using u by (simp add: first_def)
    ultimately show "\<exists>i e u. first (filter (\<lambda>p. fst p = i) ?es) = Some (i, e)
                     \<and> (\<forall>p \<in> set ?es. i \<le> fst p)
                     \<and> first (findall_child e ''Unicode'') = Some u
                     \<and> get_text l = Inr (text_of u)"
      using e min by blast
  qed
  show ?thesis using c1 c2 c3 c4 by blast
qed

theorem get_text_smallest_index_witness:
  "list_all (\<lambda>p. findall_child (snd p) ''Unicode'' \<noteq> []) (indexed_equivs (text_line line_alts))
   \<and> map fst (indexed_equivs (text_line line_alts)) = [''9'', ''10'']
   \<and> (''10'' :: string) \<le> ''9''
   \<and> (\<exists>i e u. first (filter (\<lambda>p. fst p = i) (indexed_equivs (text_line line_alts))) = Some (i, e)
              \<and> (\<forall>p \<in> set (indexed_equivs (text_line line_alts)). i \<le> fst p)
              \<and> first (findall_child e ''Unicode'') = Some u
              \<and> get_text line_alts = Inr (text_of u))
   \<and> get_text line_alts = Inr (Some ''ten'')"
proof -
  have h0: "list_all (\<lambda>p. findall_child (snd p) ''Unicode'' \<noteq> [])
              (indexed_equivs (text_line line_alts))"
    by code_simp
  then have h: "\<forall>p \<in> set (indexed_equivs (text_line line_alts)). findall_child (snd p) ''Unicode'' \<noteq> []"
    by (simp add: list_all_iff)
  have i: "map fst (indexed_equivs (text_line line_alts)) = [''9'', ''10'']" by code_simp
  then have ne: "indexed_equivs (text_line line_alts) \<noteq> []" by auto
  have o: "(''10'' :: string) \<le> ''9''" by code_simp
  have g: "get_text line_alts = Inr (Some ''ten'')" by code_simp
  from get_text_smallest_index [OF h] ne
  have "\<exists>i e u. first (filter (\<lambda>p. fst p = i) (indexed_equivs (text_line line_alts))) = Some (i, e)
              \<and> (\<forall>p \<in> set (indexed_equivs (text_line line_alts)). i \<le> fst p)
              \<and> first (findall_child e ''Unicode'') = Some u
              \<and> get_text line_alts = Inr (text_of u)"
    by blast
  with h0 i o g show ?thesis by blast
qed

lemma get_texts_append:
  "get_texts (a @ b) =
     (case get_texts a of
        Inl e \<Rightarrow> Inl e
      | Inr ta \<Rightarrow> (case get_texts b of Inl e \<Rightarrow> Inl e | Inr tb \<Rightarrow> Inr (ta @ tb)))"
  by (induction a) (auto split: sum.splits)

lemma get_texts_nth:
  "get_texts ls = Inr ts \<Longrightarrow>
   length ts = length ls \<and> (\<forall>k < length ls. get_text (ls ! k) = Inr (ts ! k))"
proof (induction ls arbitrary: ts)
  case Nil
  then show ?case by simp
next
  case (Cons l ls)
  then obtain t ts' where t: "get_text l = Inr t" and ts': "get_texts ls = Inr ts'" and ts: "ts = t # ts'"
    by (auto split: sum.splits)
  from Cons.IH [OF ts'] show ?case
    by (auto simp: ts t nth_Cons split: nat.splits)
qed

lemma truthy_texts:
  "map the (filter truthy ts) = filter (\<lambda>s. s \<noteq> []) (map text_or_empty ts)"
  by (induction ts) (auto simp: truthy_def text_or_empty_def split: option.splits)

lemma concatenate_lines_join:
  assumes "get_texts (line r) = Inr ts"
  shows "length ts = length (line r)
         \<and> (\<forall>k < length (line r). get_text (line r ! k) = Inr (ts ! k))
         \<and> concatenate_lines r
             = Inr (join newline (filter (\<lambda>s. s \<noteq> []) (map text_or_empty ts)))
         \<and> (\<forall>k < length (line r). text_or_empty (ts ! k) = [] \<longrightarrow>
               concatenate_lines (r\<lparr>line := take k (line r) @ drop (Suc k) (line r)\<rparr>)
               = concatenate_lines r)"
proof -
  have n: "length ts = length (line r) \<and> (\<forall>k < length (line r). get_text (line r ! k) = Inr (ts ! k))"
    using assms by (rule get_texts_nth)
  have c: "concatenate_lines r = Inr (join newline (filter (\<lambda>s. s \<noteq> []) (map text_or_empty ts)))"
    by (simp add: concatenate_lines_def assms truthy_texts)
  have d: "\<forall>k < length (line r). text_or_empty (ts ! k) = [] \<longrightarrow>
               concatenate_lines (r\<lparr>line := take k (line r) @ drop (Suc k) (line r)\<rparr>)
               = concatenate_lines r"
  proof (intro allI impI)
    fix k assume k: "k < length (line r)" and e: "text_or_empty (ts ! k) = []"
    have split: "line r = take k (line r) @ (line r ! k) # drop (Suc k) (line r)"
      using k by (rule id_take_nth_drop)
    from assms have "get_texts (take k (line r) @ (line r ! k) # drop (Suc k) (line r)) = Inr ts"
      using split by simp
    then obtain ta t tb where
      ta: "get_texts (take k (line r)) = Inr ta" and
      tb: "get_texts (drop (Suc k) (line r)) = Inr tb" and
      ts: "ts = ta @ t # tb"
      by (auto simp: get_texts_append split: sum.splits)
    have "length ta = k" using get_texts_nth [OF ta] k by simp
    then have "ts ! k = t" by (simp add: ts nth_append)
    with e have nt: "text_or_empty t = []" by simp
    have "get_texts (take k (line r) @ drop (Suc k) (line r)) = Inr (ta @ tb)"
      by (simp add: get_texts_append ta tb)
    then have "concatenate_lines (r\<lparr>line := take k (line r) @ drop (Suc k) (line r)\<rparr>)
               = Inr (join newline (filter (\<lambda>s. s \<noteq> []) (map text_or_empty (ta @ tb))))"
      by (simp add: concatenate_lines_def truthy_texts)
    also have "\<dots> = Inr (join newline (filter (\<lambda>s. s \<noteq> []) (map text_or_empty ts)))"
      by (simp add: ts nt)
    finally show "concatenate_lines (r\<lparr>line := take k (line r) @ drop (Suc k) (line r)\<rparr>)
               = concatenate_lines r"
      by (simp add: c)
  qed
  show ?thesis using n c d by blast
qed

section \<open>The phase of the run and the pages it loads\<close>

lemma same_part_Inr [simp]: "same_part c (Inr (a, c')) = (text_part c' = text_part c)"
  by (simp add: same_part_def)

lemma same_part_Inl [simp]: "same_part c (Inl (e, c')) = (text_part c' = text_part c)"
  by (simp add: same_part_def)

lemma same_part_and_then:
  assumes "same_part c m"
    and "\<And>a c'. text_part c' = text_part c \<Longrightarrow> same_part c (f a c')"
  shows "same_part c (and_then m f)"
proof (cases m)
  case (Inl x)
  obtain e c' where x: "x = (e, c')" by (cases x)
  from assms(1) have "text_part c' = text_part c" by (simp add: Inl x)
  then show ?thesis by (simp add: and_then_def Inl x)
next
  case (Inr y)
  obtain a c' where y: "y = (a, c')" by (cases y)
  from assms(1) have "text_part c' = text_part c" by (simp add: Inr y)
  from assms(2) [OF this] show ?thesis by (simp add: and_then_def Inr y)
qed

lemma same_part_SubElement [simp]:
  "text_part c' = text_part c \<Longrightarrow> same_part c (SubElement p t a c')"
  by (simp add: SubElement_def Let_def split: option.splits)

lemma set_text_part [simp]: "text_part (set_text a s c) = text_part c"
  by (simp add: set_text_def)

lemma same_part_region_text [simp]:
  "text_part c' = text_part c \<Longrightarrow> same_part c (region_text r c')"
  by (simp add: region_text_def split: sum.splits)

lemma same_part_fixed_child [simp]:
  "text_part c' = text_part c \<Longrightarrow> same_part c (fixed_child p t a s c')"
  unfolding fixed_child_def by (rule same_part_and_then) simp_all

lemma same_part_region_child [simp]:
  "text_part c' = text_part c \<Longrightarrow> same_part c (region_child p t a r c')"
  unfolding region_child_def
  by (rule same_part_and_then, simp, rule same_part_and_then, simp, simp)

lemma same_part_type_label [simp]:
  "text_part c' = text_part c \<Longrightarrow> same_part c (type_label r c')"
  by (simp add: type_label_def split: option.splits)

lemma same_part_three [simp]:
  "text_part c' = text_part c \<Longrightarrow> same_part c (three_paragraphs p w r c')"
  unfolding three_paragraphs_def
  by (intro same_part_and_then) simp_all

lemma same_part_if:
  "(b \<Longrightarrow> same_part c m) \<Longrightarrow> (\<not> b \<Longrightarrow> same_part c n) \<Longrightarrow> same_part c (if b then m else n)"
  by simp

lemma same_part_build_front: "same_part c (build_front r c)"
  unfolding build_front_def Let_def
  by (intro same_part_and_then same_part_if) simp_all


lemma report_text_part:
  "report d r e c = Inr c2 \<Longrightarrow> text_part c2 = text_part c"
  by (auto simp: report_def split: sum.splits)

lemma xf_write_text_part [simp]: "text_part (xf_write el c) = text_part c"
  by (simp add: xf_write_def split: option.splits)

lemma write_front_body:
  "write_front c = Inr (u, c') \<Longrightarrow> text_part c' = ''body''"
  unfolding write_front_def
  by (auto simp: and_then_def SubElement_def fixed_child_def Let_def split: sum.splits prod.splits option.splits)

lemma build_front_text_part:
  "build_front r c = Inr (u, c') \<Longrightarrow> text_part c' = text_part c"
  "build_front r c = Inl (e, c') \<Longrightarrow> text_part c' = text_part c"
  using same_part_build_front [of c r] by (simp_all add: same_part_def)

lemma front_for_text_part:
  "front_for d rs v c = Inr (v1, c1) \<Longrightarrow> text_part c1 = text_part c \<or> text_part c1 = ''body''"
proof (induction rs arbitrary: v c)
  case Nil
  then show ?case by simp
next
  case (Cons r rs)
  show ?case
  proof (cases "is_marker r")
    case True
    with Cons.prems show ?thesis
      by (auto split: sum.splits prod.splits dest: write_front_body)
  next
    case False
    show ?thesis
    proof (cases "build_front r c")
      case (Inl x)
      obtain e c' where x: "x = (e, c')" by (cases x)
      from Cons.prems False Inl x obtain c2 where
        r: "report d r e c' = Inr c2" and f: "front_for d rs (Some r) c2 = Inr (v1, c1)"
        by (auto split: sum.splits)
      have "text_part c2 = text_part c"
        using report_text_part [OF r] build_front_text_part(2) [of r c e c'] Inl x by simp
      with Cons.IH [OF f] show ?thesis by simp
    next
      case (Inr y)
      obtain u c' where y: "y = (u, c')" by (cases y)
      from Cons.prems False Inr y have f: "front_for d rs (Some r) c' = Inr (v1, c1)" by simp
      have "text_part c' = text_part c"
        using build_front_text_part(1) [of r c u c'] Inr y by simp
      with Cons.IH [OF f] show ?thesis by simp
    qed
  qed
qed

lemma front_while_body:
  "front_while fuel pint fs d v c = Some (Inr (d1, v1, c1)) \<Longrightarrow>
   text_part c = ''front'' \<or> text_part c = ''body'' \<Longrightarrow> text_part c1 = ''body''"
proof (induction fuel arbitrary: d v c)
  case 0
  then show ?case by simp
next
  case (Suc fuel)
  show ?case
  proof (cases "text_part c = ''front''")
    case False
    with Suc.prems show ?thesis by auto
  next
    case True
    from Suc.prems(1) True obtain v' c' where
      ff: "front_for d (text_region_list (page d)) v c = Inr (v', c')"
      by (auto split: sum.splits)
    have tp: "text_part c' = ''front'' \<or> text_part c' = ''body''"
      using front_for_text_part [OF ff] True by auto
    from Suc.prems(1) True ff show ?thesis
      by (auto split: option.splits list.splits sum.splits prod.splits if_splits
               dest: write_front_body Suc.IH [OF _ tp])
  qed
qed

lemma advance_loads:
  assumes "advance pint fs d = Inr d1" and "plain_names d"
  shows "plain_names d1 \<and> (\<forall>f \<in> set (file_iter d). loads pint fs f \<or> f \<in> set (file_iter d1))"
  using assms
  by (auto simp: advance_def plain_names_def loads_def split: list.splits if_splits sum.splits)

lemma body_while_loads:
  "body_while pint fs d v n c = Inr c' \<Longrightarrow> plain_names d \<Longrightarrow> \<forall>f \<in> set (file_iter d). loads pint fs f"
proof (induction pint fs d v n c rule: body_while.induct)
  case (1 pint fs d v n c)
  show ?case
  proof (cases "current_file d = ''end''")
    case True
    with "1.prems"(2) show ?thesis by (simp add: plain_names_def)
  next
    case False
    from "1.prems"(1) False obtain v1 n1 c1 r x xs where
      bf: "body_for d (text_region_list (page d)) v n c = Inr (v1, n1, c1)"
      and v1: "v1 = Some r" and l: "text_region_list (page d) = x # xs"
      by (subst (asm) body_while.simps) (auto split: sum.splits prod.splits option.splits list.splits)
    have last: "ident r = ident (last (text_region_list (page d)))"
      using body_for_last [OF bf] l v1 by simp
    from "1.prems"(1) False bf v1 l last obtain d1 where
      adv: "advance pint fs d = Inr d1" and rec: "body_while pint fs d1 v1 n1 c1 = Inr c'"
      by (subst (asm) body_while.simps) (auto split: sum.splits)
    from advance_loads [OF adv "1.prems"(2)] have pn: "plain_names d1"
      and step: "\<forall>f \<in> set (file_iter d). loads pint fs f \<or> f \<in> set (file_iter d1)" by blast+
    have "\<forall>f \<in> set (file_iter d1). loads pint fs f"
      using "1.IH"(1) [OF False bf refl refl v1 l last adv rec pn] .
    with step show ?thesis by blast
  qed
qed


lemma front_while_loads:
  "front_while fuel pint fs d v c = Some (Inr (d1, v1, c1)) \<Longrightarrow> plain_names d \<Longrightarrow>
   plain_names d1 \<and> (\<forall>f \<in> set (file_iter d). loads pint fs f \<or> f \<in> set (file_iter d1))"
proof (induction fuel arbitrary: d v c)
  case 0
  then show ?case by simp
next
  case (Suc fuel)
  show ?case
  proof (cases "text_part c = ''front''")
    case False
    with Suc.prems show ?thesis by auto
  next
    case True
    from Suc.prems(1) True obtain v' c' r x xs d' r0 rs0 where
      ff: "front_for d (text_region_list (page d)) v c = Inr (v', c')"
      and v': "v' = Some r" and l: "text_region_list (page d) = x # xs"
      and d': "(if ident r = ident (last (text_region_list (page d))) then advance pint fs d else Inr d) = Inr d'"
      and l': "text_region_list (page d') = r0 # rs0"
      by (auto simp del: front_for.simps last.simps split: sum.splits prod.splits option.splits list.splits)
    have step: "plain_names d' \<and> (\<forall>f \<in> set (file_iter d). loads pint fs f \<or> f \<in> set (file_iter d'))"
    proof (cases "ident r = ident (last (text_region_list (page d)))")
      case True
      with d' have "advance pint fs d = Inr d'" by simp
      from advance_loads [OF this Suc.prems(2)] show ?thesis .
    next
      case False
      with d' have "d' = d" by simp
      with Suc.prems(2) show ?thesis by simp
    qed
    show ?thesis
    proof (cases "is_marker r0")
      case m: True
      from Suc.prems(1) True ff v' l d' l' m have "d1 = d'"
        by (auto simp del: front_for.simps last.simps split: sum.splits prod.splits)
      with step show ?thesis by simp
    next
      case m: False
      from Suc.prems(1) True ff v' l d' l' m
      have "front_while fuel pint fs d' v' c' = Some (Inr (d1, v1, c1))"
        by (auto simp del: front_for.simps last.simps split: sum.splits prod.splits)
      from Suc.IH [OF this] step
      have "plain_names d1 \<and> (\<forall>f \<in> set (file_iter d'). loads pint fs f \<or> f \<in> set (file_iter d1))"
        by blast
      with step show ?thesis by blast
    qed
  qed
qed

lemma create_tei_loads:
  assumes "create_tei fuel pint fs d new_conversion = Some (Written ev ms)" and "plain_names d"
  shows "\<forall>f \<in> set (file_iter d). loads pint fs f"
proof -
  let ?c = "new_conversion\<lparr>xf := xf new_conversion @ envelope\<rparr>"
  from assms(1) obtain r0 rs0 where l: "text_region_list (page d) = r0 # rs0"
    by (auto simp: create_tei_def Let_def split: list.splits)
  have tp0: "text_part ?c = ''front''" by (simp add: new_conversion_def)
  show ?thesis
  proof (cases "is_marker r0")
    case True
    from assms(1) l True tp0 obtain c4 where
      "body_while pint fs d None 0 (?c\<lparr>text_part := ''body'', xf := xf ?c @ [Start ''body'' []]\<rparr>) = Inr c4"
      by (auto simp: create_tei_def Let_def split: sum.splits prod.splits)
    from body_while_loads [OF this assms(2)] show ?thesis .
  next
    case False
    obtain a c2 where el: "Element ''front'' [] ?c = (a, c2)" by (cases "Element ''front'' [] ?c")
    have tp2: "text_part (c2\<lparr>front := Some a\<rparr>) = ''front''"
      using el tp0 by (auto simp: Element_def)
    from assms(1) l False tp0 el obtain d1 v c3 where
      fw: "front_while fuel pint fs d None (c2\<lparr>front := Some a\<rparr>) = Some (Inr (d1, v, c3))"
      by (auto simp: create_tei_def Let_def split: sum.splits prod.splits option.splits)
    have tp3: "text_part c3 = ''body''"
      using front_while_body [OF fw] tp2 by simp
    from assms(1) l False tp0 el fw tp3 obtain c4 where
      bw: "body_while pint fs d1 v 0 (c3\<lparr>xf := xf c3 @ [Start ''body'' []]\<rparr>) = Inr c4"
      by (auto simp: create_tei_def Let_def split: sum.splits prod.splits)
    from front_while_loads [OF fw assms(2)] have pn: "plain_names d1"
      and step: "\<forall>f \<in> set (file_iter d). loads pint fs f \<or> f \<in> set (file_iter d1)" by blast+
    from body_while_loads [OF bw pn] step show ?thesis by blast
  qed
qed

lemma run_loads:
  assumes "run fuel pint fs files = Some (Written ev ms)" and "''end'' \<notin> set files"
  shows "\<forall>f \<in> set files. loads pint fs f"
proof (cases "sort files")
  case Nil
  then have "files = []" by (metis length_0_conv length_sort)
  then show ?thesis by simp
next
  case (Cons g gs)
  from assms(1) Cons obtain p where p: "Page_init pint fs g 50 = Inr p"
    and ct: "create_tei fuel pint fs \<lparr>file_list = g # gs, file_iter = gs, current_file = g, page = p\<rparr>
               new_conversion = Some (Written ev ms)"
    by (auto simp: run_def Conversion_init_def Let_def split: sum.splits)
  have s: "set files = insert g (set gs)"
    using Cons by (metis list.simps(15) set_sort)
  have pn: "plain_names \<lparr>file_list = g # gs, file_iter = gs, current_file = g, page = p\<rparr>"
    using assms(2) s by (auto simp: plain_names_def)
  from create_tei_loads [OF ct pn] have "\<forall>f \<in> set gs. loads pint fs f" by simp
  moreover have "loads pint fs g" using p by (auto simp: loads_def)
  ultimately show ?thesis using s by auto
qed

lemma TextRegion_init_geometry:
  "TextRegion_init pint i e lh = Inr r \<Longrightarrow> \<not> geometry_error pint e"
  by (auto simp: TextRegion_init_def geometry_error_def split: if_splits sum.splits list.splits)

lemma regions_init_geometry:
  "regions_init pint i es lh = Inr rs \<Longrightarrow> e \<in> set es \<Longrightarrow> \<not> geometry_error pint e"
proof (induction es arbitrary: i rs)
  case Nil
  then show ?case by simp
next
  case (Cons x es)
  from Cons.prems(1) obtain r rs' where
    r: "TextRegion_init pint i x lh = Inr r" and rs': "regions_init pint (Suc i) es lh = Inr rs'"
    by (auto split: sum.splits)
  show ?case
  proof (cases "e = x")
    case True
    with r show ?thesis using TextRegion_init_geometry by blast
  next
    case False
    with Cons.prems(2) have "e \<in> set es" by simp
    from Cons.IH [OF rs' this] show ?thesis .
  qed
qed

lemma loads_geometry:
  assumes "loads pint fs f" and "fs f = Some root" and "e \<in> set (region_elements root)"
  shows "\<not> geometry_error pint e"
proof -
  from assms(1,2) obtain rs where "regions_init pint 0 (region_elements root) 50 = Inr rs"
    by (auto simp: loads_def Page_init_def Let_def split: sum.splits)
  from regions_init_geometry [OF this assms(3)] show ?thesis .
qed

section \<open>Errors of the geometry\<close>

text \<open>
  C5, as the spec states it, fails: on the second page one region has a malformed polygon
  and the other is in order; the run is aborted with the ValueError, no message about a
  region is printed and no document is written.
\<close>

theorem geometry_error_not_per_region:
  "run 5 ascii_int fs_bad_geometry [''a.xml'', ''b.xml''] = Some (Aborted ValueError [])"
  by code_simp

text \<open>
  C5, amended. A GeometryError is raised while the page is constructed and is not caught
  per region: the page with the failing region is not constructed at all, and a run over
  files (none of them called \<^verbatim>\<open>end\<close>) of which one holds such a region writes no
  output document, whatever the fuel.
\<close>

theorem geometry_error_aborts_run:
  assumes "''end'' \<notin> set files" and "f \<in> set files" and "fs f = Some root"
    and "e \<in> set (region_elements root)" and "geometry_error pint e"
  shows "Page_init pint fs f 50 \<noteq> Inr p \<and> run fuel pint fs files \<noteq> Some (Written ev ms)"
proof -
  have nl: "\<not> loads pint fs f"
    using loads_geometry [of pint fs f root e] assms(3,4,5) by blast
  then have 1: "Page_init pint fs f 50 \<noteq> Inr p" by (auto simp: loads_def)
  have 2: "run fuel pint fs files \<noteq> Some (Written ev ms)"
  proof
    assume "run fuel pint fs files = Some (Written ev ms)"
    from run_loads [OF this assms(1)] assms(2) have "loads pint fs f" by blast
    with nl show False by simp
  qed
  from 1 2 show ?thesis by blast
qed

theorem geometry_error_aborts_run_witness:
  "''end'' \<notin> set [''a.xml'', ''b.xml''] \<and> ''b.xml'' \<in> set [''a.xml'', ''b.xml'']
   \<and> fs_bad_geometry ''b.xml'' = Some (the (fs_bad_geometry ''b.xml''))
   \<and> mk_region ''r1'' ''credit'' [mk_line ''1,2 x'' ''Sprecher'']
        \<in> set (region_elements (the (fs_bad_geometry ''b.xml'')))
   \<and> geometry_error ascii_int (mk_region ''r1'' ''credit'' [mk_line ''1,2 x'' ''Sprecher''])
   \<and> (\<forall>p. Page_init ascii_int fs_bad_geometry ''b.xml'' 50 \<noteq> Inr p)
   \<and> (\<forall>ev ms. run 5 ascii_int fs_bad_geometry [''a.xml'', ''b.xml''] \<noteq> Some (Written ev ms))"
proof -
  have h1: "''end'' \<notin> set [''a.xml'', ''b.xml'']" by simp
  have h2: "''b.xml'' \<in> set [''a.xml'', ''b.xml'']" by simp
  have h3: "fs_bad_geometry ''b.xml'' = Some (the (fs_bad_geometry ''b.xml''))" by code_simp
  have h4: "mk_region ''r1'' ''credit'' [mk_line ''1,2 x'' ''Sprecher'']
        \<in> set (region_elements (the (fs_bad_geometry ''b.xml'')))" by code_simp
  have h5: "geometry_error ascii_int (mk_region ''r1'' ''credit'' [mk_line ''1,2 x'' ''Sprecher''])"
    by code_simp
  from geometry_error_aborts_run
         [where files = "[''a.xml'', ''b.xml'']" and f = "''b.xml''" and fs = fs_bad_geometry
            and root = "the (fs_bad_geometry ''b.xml'')"
            and e = "mk_region ''r1'' ''credit'' [mk_line ''1,2 x'' ''Sprecher'']"
            and pint = ascii_int and fuel = 5, OF h1 h2 h3 h4 h5] h1 h2 h3 h4 h5
  show ?thesis by blast
qed

section \<open>A first page without regions\<close>

text \<open>
  C2, as the spec states it, fails: on the spec's first scenario the run does not produce
  a bare envelope; it is aborted with an IndexError and writes no document.
\<close>

theorem empty_first_page_no_document:
  "run 5 ascii_int fs_empty_order [''b.xml'', ''a.xml''] = Some (Aborted IndexError [])"
  by code_simp

text \<open>
  C2, amended. When the first page (in the sorted order of the files) has regions but an
  empty group-ordering list, its resolved region list is empty and the run produces no
  document: reading the first region raises IndexError, the handler around the run catches
  it, and the run ends aborted without a per-region message.
\<close>

theorem empty_first_page_aborts:
  assumes "files \<noteq> []" and "Page_init pint fs (hd (sort files)) 50 = Inr p"
    and "text_region_dict p \<noteq> []" and "reading_order p = []"
  shows "text_region_list p = [] \<and> run fuel pint fs files = Some (Aborted IndexError [])"
proof -
  have l: "text_region_list p = []"
    using Page_init_list [OF assms(2,3)] assms(4) by simp
  from assms(1) obtain g gs where s: "sort files = g # gs"
    by (cases "sort files") (auto dest: arg_cong [where f = length])
  have "run fuel pint fs files = Some (Aborted IndexError [])"
    using assms(2) l by (simp add: run_def Conversion_init_def Let_def s create_tei_def new_conversion_def)
  with l show ?thesis by simp
qed

theorem empty_first_page_aborts_witness:
  "[''b.xml'', ''a.xml''] \<noteq> []
   \<and> Page_init ascii_int fs_empty_order (hd (sort [''b.xml'', ''a.xml''])) 50
       = Inr (projr (Page_init ascii_int fs_empty_order ''a.xml'' 50))
   \<and> text_region_dict (projr (Page_init ascii_int fs_empty_order ''a.xml'' 50)) \<noteq> []
   \<and> reading_order (projr (Page_init ascii_int fs_empty_order ''a.xml'' 50)) = []
   \<and> text_region_list (projr (Page_init ascii_int fs_empty_order ''a.xml'' 50)) = []
   \<and> run 5 ascii_int fs_empty_order [''b.xml'', ''a.xml''] = Some (Aborted IndexError [])"
proof -
  let ?p = "projr (Page_init ascii_int fs_empty_order ''a.xml'' 50)"
  have h1: "[''b.xml'', ''a.xml''] \<noteq> ([] :: string list)" by simp
  have h2: "Page_init ascii_int fs_empty_order (hd (sort [''b.xml'', ''a.xml''])) 50 = Inr ?p" by code_simp
  have h3: "text_region_dict ?p \<noteq> []" by code_simp
  have h4: "reading_order ?p = []" by code_simp
  from empty_first_page_aborts [OF h1 h2 h3 h4] h1 h2 h3 h4 show ?thesis by blast
qed

section \<open>The hand-over from front to body\<close>

text \<open>
  C3 on two inputs. On the first, the header is met in mid-page: the front is flushed once,
  but the body phase starts again at the first region of the page, so the catch-word the
  front phase has consumed is processed a second time and its text stands in the body. On
  the second, the header is the last region of its page: the page is advanced past it, the
  front is flushed a second time because the next page starts with a body marker, and the
  header is never processed (the body holds the act of the second page only).
\<close>

theorem front_handover_restarts_page:
  "run 5 ascii_int fs_midpage [''a.xml''] =
   Some (Written
     (envelope @
      [Node (Elem ''front'' [] None
         [Elem ''titlePage'' [] None
            [Elem ''titlePart'' [] (Some WARN_TITLE) [],
             Elem ''titlePart'' [] (Some ''Titel'') []],
          Elem ''set'' [] None [Elem ''p'' [] (Some WARN_SET) []]]),
       Start ''body'' [],
       Node (Elem ''p'' [] (Some WARN_CATCH_HEAD) []),
       Node (Elem ''head'' [] (Some ''Titel'') []),
       Node (Elem ''div'' [(''type'', ''act'')] None
         [Elem ''head'' [] (Some ''Akt'') [],
          Elem ''div'' [(''type'', ''scene'')] None
            [Elem ''head'' [] (Some ''Szene'') [],
             Elem ''stage'' [] None [Elem ''castList'' [] None []]]]),
       Close, Close, Close])
     [])
   \<and> run 5 ascii_int fs_marker_last [''a.xml'', ''b.xml''] =
   Some (Written
     (envelope @
      [Node (Elem ''front'' [] None
         [Elem ''div'' [(''type'', ''preface'')] None [Elem ''p'' [] (Some ''Vorwort'') []],
          Elem ''set'' [] None [Elem ''p'' [] (Some WARN_SET) []]]),
       Node (Elem ''front'' [] None
         [Elem ''div'' [(''type'', ''preface'')] None [Elem ''p'' [] (Some ''Vorwort'') []],
          Elem ''set'' [] None [Elem ''p'' [] (Some WARN_SET) []],
          Elem ''set'' [] None [Elem ''p'' [] (Some WARN_SET) []]]),
       Start ''body'' [],
       Node (Elem ''div'' [(''type'', ''act'')] None
         [Elem ''head'' [] (Some ''Zweiter Akt'') [],
          Elem ''div'' [(''type'', ''scene'')] None
            [Elem ''head'' [] (Some ''Szene'') [],
             Elem ''stage'' [] None [Elem ''castList'' [] None []]]]),
       Close, Close, Close])
     [])"
proof -
  have a: "run 5 ascii_int fs_midpage [''a.xml''] =
   Some (Written
     (envelope @
      [Node (Elem ''front'' [] None
         [Elem ''titlePage'' [] None
            [Elem ''titlePart'' [] (Some WARN_TITLE) [],
             Elem ''titlePart'' [] (Some ''Titel'') []],
          Elem ''set'' [] None [Elem ''p'' [] (Some WARN_SET) []]]),
       Start ''body'' [],
       Node (Elem ''p'' [] (Some WARN_CATCH_HEAD) []),
       Node (Elem ''head'' [] (Some ''Titel'') []),
       Node (Elem ''div'' [(''type'', ''act'')] None
         [Elem ''head'' [] (Some ''Akt'') [],
          Elem ''div'' [(''type'', ''scene'')] None
            [Elem ''head'' [] (Some ''Szene'') [],
             Elem ''stage'' [] None [Elem ''castList'' [] None []]]]),
       Close, Close, Close])
     [])"
    by code_simp
  have b: "run 5 ascii_int fs_marker_last [''a.xml'', ''b.xml''] =
   Some (Written
     (envelope @
      [Node (Elem ''front'' [] None
         [Elem ''div'' [(''type'', ''preface'')] None [Elem ''p'' [] (Some ''Vorwort'') []],
          Elem ''set'' [] None [Elem ''p'' [] (Some WARN_SET) []]]),
       Node (Elem ''front'' [] None
         [Elem ''div'' [(''type'', ''preface'')] None [Elem ''p'' [] (Some ''Vorwort'') []],
          Elem ''set'' [] None [Elem ''p'' [] (Some WARN_SET) []],
          Elem ''set'' [] None [Elem ''p'' [] (Some WARN_SET) []]]),
       Start ''body'' [],
       Node (Elem ''div'' [(''type'', ''act'')] None
         [Elem ''head'' [] (Some ''Zweiter Akt'') [],
          Elem ''div'' [(''type'', ''scene'')] None
            [Elem ''head'' [] (Some ''Szene'') [],
             Elem ''stage'' [] None [Elem ''castList'' [] None []]]]),
       Close, Close, Close])
     [])"
    by code_simp
  from a b show ?thesis by (rule conjI)
qed

section \<open>Acts written\<close>

text \<open>
  C4 on one page with a header and a paragraph. The header opens an act; the paragraph,
  the last region of the last page, fails (no scene is open) before the end-of-stream
  flush at the end of its step is reached: the run writes a body without an act, although
  one header region was processed.
\<close>

theorem final_act_not_flushed:
  "map rtype (text_region_list (projr (Page_init ascii_int fs_lost_act ''a.xml'' 50)))
     = [Some ''header'', Some ''paragraph'']
   \<and> run 5 ascii_int fs_lost_act [''a.xml''] =
   Some (Written (envelope @ [Start ''body'' [], Close, Close, Close])
     [\<lparr>msg_file = ''a.xml'', msg_region = 1, msg_error = TypeError\<rparr>])"
proof -
  have a: "map rtype (text_region_list (projr (Page_init ascii_int fs_lost_act ''a.xml'' 50)))
     = [Some ''header'', Some ''paragraph'']"
    by code_simp
  have b: "run 5 ascii_int fs_lost_act [''a.xml''] =
   Some (Written (envelope @ [Start ''body'' [], Close, Close, Close])
     [\<lparr>msg_file = ''a.xml'', msg_region = 1, msg_error = TypeError\<rparr>])"
    by code_simp
  from a b show ?thesis by (rule conjI)
qed

section \<open>Captions of the normal scenario\<close>

text \<open>
  C6, as the spec states it, fails: after a speaker, the first caption is put into the
  speech, but the second caption (after a caption of the normal scenario, the speech still
  open) is put into the scene, beside the speech.
\<close>

theorem second_caption_leaves_speech:
  "run 5 ascii_int fs_captions [''a.xml''] =
   Some (Written
     (envelope @
      [Start ''body'' [],
       Node (Elem ''div'' [(''type'', ''act'')] None
         [Elem ''head'' [] (Some ''Akt'') [],
          Elem ''div'' [(''type'', ''scene'')] None
            [Elem ''head'' [] (Some ''Szene'') [],
             Elem ''stage'' [] None [Elem ''castList'' [] None []],
             Elem ''sp'' [] None
               [Elem ''speaker'' [] (Some ''Sprecher'') [],
                Elem ''stage'' [] (Some ''erste'') []],
             Elem ''stage'' [] (Some ''zweite'') []]]),
       Close, Close, Close])
     [])"
  by code_simp

lemma xf_write_fields [simp]:
  "heap (xf_write el c) = heap c"
  "current_scenario (xf_write el c) = current_scenario c"
  by (simp_all add: xf_write_def split: option.splits)

lemma region_child_stage:
  assumes "concatenate_lines r = Inr t" and "a < length (heap c)"
  shows "\<exists>c'. region_child (Some a) ''stage'' [] r c = Inr (length (heap c), c')
           \<and> length (heap c') = Suc (length (heap c))
           \<and> heap c' ! length (heap c) = \<lparr>etag = ''stage'', eattrib = [], etext = Some t, echildren = []\<rparr>
           \<and> echildren (heap c' ! a) = echildren (heap c ! a) @ [length (heap c)]
           \<and> current_scenario c' = current_scenario c"
  using assms
  by (simp add: region_child_def and_then_def SubElement_def Let_def region_text_def set_text_def
        nth_append)

text \<open>
  C6, amended. A caption processed after a credit or a heading becomes a new stage
  direction of the open speech when a speech is open, otherwise of the open scene. A
  caption processed after a caption of the normal scenario becomes a new stage direction
  of the open prologue when one is open, otherwise of the open scene, whether or not a
  speech is open. In both cases the scenario marker is set to normal.
\<close>

theorem caption_normal_scenario:
  assumes "rtype r = Some ''caption''" and "concatenate_lines r = Inr t"
    and "file_list d \<noteq> []" and "text_region_list (page d) \<noteq> []"
    and "previous_type c = Some ''credit'' \<or> previous_type c = Some ''heading''
         \<or> (previous_type c = Some ''caption'' \<and> current_scenario c = Some ''normal'')"
    and "target = (if previous_type c = Some ''caption''
                   then (if prologue c \<noteq> None then prologue c else scene c)
                   else (if sp c \<noteq> None then sp c else scene c))"
    and "target = Some a" and "a < length (heap c)"
  shows "\<exists>c'. build_body d r n c = Inr (n, c') \<and> stage_added c a t c'"
proof -
  from region_child_stage [OF assms(2,8)] obtain c1 where
    rc: "region_child (Some a) ''stage'' [] r c = Inr (length (heap c), c1)"
    and h: "length (heap c1) = Suc (length (heap c))"
       "heap c1 ! length (heap c) = \<lparr>etag = ''stage'', eattrib = [], etext = Some t, echildren = []\<rparr>"
       "echildren (heap c1 ! a) = echildren (heap c ! a) @ [length (heap c)]"
    by blast
  have cap: "body_caption r n c = Inr (n, c1\<lparr>current_scenario := Some ''normal''\<rparr>)"
    using assms(5,6,7) rc
    by (auto simp: body_caption_def and_then_def split: if_splits)
  have br: "body_branch d r n c = Inr (n, c1\<lparr>current_scenario := Some ''normal''\<rparr>)"
    using assms(1) cap by (simp add: body_branch_def)
  obtain x xs where l: "text_region_list (page d) = x # xs"
    using assms(4) by (cases "text_region_list (page d)") auto
  show ?thesis
    using assms(1,3) h
    by (cases "file_iter d = []")
       (auto simp: build_body_def br and_then_def l stage_added_def simp del: last.simps)
qed

theorem caption_normal_scenario_witness:
  "rtype caption_region = Some ''caption''
   \<and> concatenate_lines caption_region = Inr ''erste''
   \<and> file_list caption_driver \<noteq> []
   \<and> text_region_list (page caption_driver) \<noteq> []
   \<and> previous_type state_after_credit = Some ''credit''
   \<and> sp state_after_credit = Some 2
   \<and> (\<exists>c'. build_body caption_driver caption_region 1 state_after_credit = Inr (1, c')
          \<and> stage_added state_after_credit 2 ''erste'' c')
   \<and> previous_type state_after_caption = Some ''caption''
   \<and> current_scenario state_after_caption = Some ''normal''
   \<and> sp state_after_caption = Some 2
   \<and> prologue state_after_caption = None
   \<and> scene state_after_caption = Some 1
   \<and> (\<exists>c'. build_body caption_driver caption_region 1 state_after_caption = Inr (1, c')
          \<and> stage_added state_after_caption 1 ''erste'' c')"
proof -
  have h1: "rtype caption_region = Some ''caption''" by code_simp
  have h2: "concatenate_lines caption_region = Inr ''erste''" by code_simp
  have h3: "file_list caption_driver \<noteq> []" by code_simp
  have h4: "text_region_list (page caption_driver) \<noteq> []" by code_simp
  have p1: "previous_type state_after_credit = Some ''credit''" by code_simp
  have s1: "sp state_after_credit = Some 2" by code_simp
  have t1: "Some 2 = (if previous_type state_after_credit = Some ''caption''
                   then (if prologue state_after_credit \<noteq> None then prologue state_after_credit
                         else scene state_after_credit)
                   else (if sp state_after_credit \<noteq> None then sp state_after_credit
                         else scene state_after_credit))"
    by code_simp
  have l1: "2 < length (heap state_after_credit)" by code_simp
  have p2: "previous_type state_after_caption = Some ''caption''" by code_simp
  have n2: "current_scenario state_after_caption = Some ''normal''" by code_simp
  have s2: "sp state_after_caption = Some 2" by code_simp
  have g2: "prologue state_after_caption = None" by code_simp
  have e2: "scene state_after_caption = Some 1" by code_simp
  have t2: "Some 1 = (if previous_type state_after_caption = Some ''caption''
                   then (if prologue state_after_caption \<noteq> None then prologue state_after_caption
                         else scene state_after_caption)
                   else (if sp state_after_caption \<noteq> None then sp state_after_caption
                         else scene state_after_caption))"
    by code_simp
  have l2: "1 < length (heap state_after_caption)" by code_simp
  have a: "\<exists>c'. build_body caption_driver caption_region 1 state_after_credit = Inr (1, c')
          \<and> stage_added state_after_credit 2 ''erste'' c'"
    using caption_normal_scenario [OF h1 h2 h3 h4 _ t1 refl l1] p1 by blast
  have b: "\<exists>c'. build_body caption_driver caption_region 1 state_after_caption = Inr (1, c')
          \<and> stage_added state_after_caption 1 ''erste'' c'"
    using caption_normal_scenario [OF h1 h2 h3 h4 _ t2 refl l2] p2 n2 by blast
  from h1 h2 h3 h4 p1 s1 a p2 n2 s2 g2 e2 b show ?thesis by blast
qed

section \<open>The text of a region in the elements a step creates\<close>

lemma and_thenE:
  assumes "and_then m f = Inr y"
  obtains a c1 where "m = Inr (a, c1)" and "f a c1 = Inr y"
  using assms by (auto simp: and_then_def split: sum.splits prod.splits)

lemma labels_update [simp]:
  "labels (c\<lparr>is_title_page_created := b\<rparr>) = labels c"
  "labels (c\<lparr>div_preface := x\<rparr>) = labels c"
  "labels (c\<lparr>title_page := x\<rparr>) = labels c"
  "labels (c\<lparr>cast_list := x\<rparr>) = labels c"
  "labels (c\<lparr>cast_item := x\<rparr>) = labels c"
  "labels (c\<lparr>previous_type := y\<rparr>) = labels c"
  "labels (c\<lparr>prologue := x\<rparr>) = labels c"
  "labels (c\<lparr>act := x\<rparr>) = labels c"
  "labels (c\<lparr>scene := x\<rparr>) = labels c"
  "labels (c\<lparr>stage := x\<rparr>) = labels c"
  "labels (c\<lparr>sp_grp := x\<rparr>) = labels c"
  "labels (c\<lparr>sp := x\<rparr>) = labels c"
  "labels (c\<lparr>set_div := x\<rparr>) = labels c"
  "labels (c\<lparr>current_scenario := y\<rparr>) = labels c"
  "labels (c\<lparr>text_part := z\<rparr>) = labels c"
  by (simp_all add: labels_def)

lemma labels_xf_write [simp]: "labels (xf_write el c) = labels c"
  by (simp add: labels_def xf_write_def split: option.splits)

lemma map_label_children:
  "map (\<lambda>e. (etag e, etext e)) (xs[p := (xs ! p)\<lparr>echildren := k\<rparr>]) = map (\<lambda>e. (etag e, etext e)) xs"
proof (cases "p < length xs")
  case True
  show ?thesis
    using True by (auto intro!: nth_equalityI simp: nth_list_update)
next
  case False
  then have "xs[p := (xs ! p)\<lparr>echildren := k\<rparr>] = xs" by (simp add: list_update_beyond)
  then show ?thesis by simp
qed

lemma set_last_text:
  "n = length ys \<Longrightarrow> (ys @ [x])[n := ((ys @ [x]) ! n)\<lparr>etext := Some s\<rparr>] = ys @ [x\<lparr>etext := Some s\<rparr>]"
  by simp

lemma labels_Element:
  assumes "Element tg at c = (n, c')"
  shows "labels c' = labels c @ [(tg, None)] \<and> (\<forall>s. labels (set_text n s c') = labels c @ [(tg, Some s)])"
  using assms by (auto simp: Element_def labels_def set_text_def)

lemma labels_SubElement:
  assumes "SubElement p tg at c = Inr (n, c')"
  shows "labels c' = labels c @ [(tg, None)] \<and> (\<forall>s. labels (set_text n s c') = labels c @ [(tg, Some s)])"
proof -
  from assms obtain a where p: "p = Some a"
    and n: "n = length (heap c)"
    and c': "heap c' = (heap c)[a := (heap c ! a)\<lparr>echildren := echildren (heap c ! a) @ [n]\<rparr>]
                       @ [\<lparr>etag = tg, eattrib = at, etext = None, echildren = []\<rparr>]"
    by (auto simp: SubElement_def Let_def split: option.splits)
  have 1: "labels c' = labels c @ [(tg, None)]"
    by (simp add: labels_def c' map_label_children)
  have 2: "labels (set_text n s c') = labels c @ [(tg, Some s)]" for s
  proof -
    let ?ys = "(heap c)[a := (heap c ! a)\<lparr>echildren := echildren (heap c ! a) @ [n]\<rparr>]"
    have l: "n = length ?ys" by (simp add: n)
    show ?thesis
      unfolding labels_def set_text_def
      by (simp add: c' set_last_text [OF l] map_label_children del: list_update.simps)
  qed
  from 1 2 show ?thesis by blast
qed

lemma labels_fixed_child:
  assumes "fixed_child p tg at w c = Inr (n, c')"
  shows "labels c' = labels c @ [(tg, Some w)]"
  using assms unfolding fixed_child_def
  by (auto elim!: and_thenE dest!: labels_SubElement)

lemma region_text_Inr:
  "region_text r c = Inr (s, c') \<Longrightarrow> c' = c \<and> concatenate_lines r = Inr s"
  by (auto simp: region_text_def split: sum.splits)

lemma labels_region_child:
  assumes "region_child p tg at r c = Inr (n, c')"
  shows "\<exists>t. concatenate_lines r = Inr t \<and> labels c' = labels c @ [(tg, Some t)]"
  using assms unfolding region_child_def
  by (auto elim!: and_thenE dest!: labels_SubElement region_text_Inr)

lemma type_label_Inr:
  "type_label r c = Inr (l, c') \<Longrightarrow> c' = c \<and> (\<exists>ty. rtype r = Some ty \<and> l = ''type = '' @ ty)"
  by (auto simp: type_label_def split: option.splits)

lemma labels_three_paragraphs:
  assumes "three_paragraphs parent w r c = Inr (u, c')"
  shows "\<exists>t ty. concatenate_lines r = Inr t \<and> rtype r = Some ty \<and>
           labels c' = labels c @ [(''p'', Some w), (''p'', Some (''type = '' @ ty)), (''p'', Some t)]"
  using assms unfolding three_paragraphs_def
  by (auto elim!: and_thenE dest!: labels_fixed_child region_text_Inr type_label_Inr)

lemma step_textsI:
  assumes "labels c' = labels c @ news" and "tg \<in> set text_tags" and "(tg, Some t) \<in> set news"
    and "\<forall>x \<in> set news. snd x = None \<or> snd x = Some t \<or> (\<exists>w. snd x = Some w \<and> diagnostic d r w)"
  shows "step_texts d r t c c'"
  using assms unfolding step_texts_def by blast

lemma build_front_labels:
  assumes "build_front r c = Inr (u, c')"
  shows "\<exists>t. concatenate_lines r = Inr t \<and> step_texts d r t c c'"
  using assms unfolding build_front_def Let_def
  apply (auto elim!: and_thenE
              dest!: labels_SubElement labels_fixed_child labels_region_child
                     labels_three_paragraphs region_text_Inr
              split: if_splits)
  apply (auto simp: step_texts_def text_tags_def diagnostic_def)
  done


lemma body_caption_labels:
  assumes "body_caption r n c = Inr (n', c')"
  shows "\<exists>t. concatenate_lines r = Inr t \<and> step_texts d r t c c'"
  using assms unfolding body_caption_def
  apply (auto elim!: and_thenE
              dest!: labels_SubElement labels_fixed_child labels_region_child
              split: if_splits)
  apply (auto simp: step_texts_def text_tags_def diagnostic_def)
  done

lemma body_branch_labels:
  assumes "body_branch d r n c = Inr (n', c')"
  shows "\<exists>t. concatenate_lines r = Inr t \<and> step_texts d r t c c'"
  using assms unfolding body_branch_def Let_def
  apply (auto elim!: and_thenE
              dest!: labels_SubElement labels_fixed_child labels_region_child
                     labels_three_paragraphs region_text_Inr labels_Element
                     body_caption_labels [where d = d]
              split: if_splits prod.splits)
  apply (auto simp: step_texts_def text_tags_def diagnostic_def)
  done

lemma build_body_labels:
  assumes "build_body d r n c = Inr (n', c')"
  shows "\<exists>t. concatenate_lines r = Inr t \<and> step_texts d r t c c'"
proof -
  from assms obtain m c1 where b: "body_branch d r n c = Inr (m, c1)" and l: "labels c' = labels c1"
    unfolding build_body_def
    by (auto elim!: and_thenE split: if_splits list.splits)
  from body_branch_labels [OF b] obtain t where
    t: "concatenate_lines r = Inr t" and s: "step_texts d r t c c1" by blast
  from s l have "step_texts d r t c c'" by (simp add: step_texts_def)
  with t show ?thesis by blast
qed

text \<open>
  C10. In every step of the front and of the body transducer that returns, the text the
  step gives to the element it creates for the region (a head, title part, paragraph,
  role, role description, note, cast item, stage direction or speaker) is the newline-join
  of the canonical texts of the region's lines, in their order, without the empty ones: a
  line whose text is empty (or \<^verbatim>\<open>None\<close>) adds neither text nor a separator, so the
  text is the same as without that line. Every other element the step creates has no text
  or a diagnostic text, and the elements that existed keep their text.
\<close>

theorem region_text_in_every_element:
  assumes "build_front r c = Inr (u, c') \<or> build_body d r n c = Inr (n', c')"
  shows "\<exists>ts. get_texts (line r) = Inr ts
           \<and> length ts = length (line r)
           \<and> (\<forall>k < length (line r). get_text (line r ! k) = Inr (ts ! k))
           \<and> concatenate_lines r
               = Inr (join newline (filter (\<lambda>s. s \<noteq> []) (map text_or_empty ts)))
           \<and> (\<forall>k < length (line r). text_or_empty (ts ! k) = [] \<longrightarrow>
                 concatenate_lines (r\<lparr>line := take k (line r) @ drop (Suc k) (line r)\<rparr>)
                 = concatenate_lines r)
           \<and> step_texts d r (join newline (filter (\<lambda>s. s \<noteq> []) (map text_or_empty ts))) c c'"
proof -
  from assms obtain t where t: "concatenate_lines r = Inr t" and s: "step_texts d r t c c'"
    using build_front_labels [of r c u c' d] build_body_labels [of d r n c n' c'] by blast
  from t obtain ts where ts: "get_texts (line r) = Inr ts"
    by (auto simp: concatenate_lines_def split: sum.splits)
  note j = concatenate_lines_join [OF ts]
  from j t have "t = join newline (filter (\<lambda>s. s \<noteq> []) (map text_or_empty ts))" by simp
  with s j ts show ?thesis by blast
qed

theorem region_text_in_every_element_witness:
  "build_body caption_driver blank_region 1 state_after_credit
     = Inr (1, snd (projr (build_body caption_driver blank_region 1 state_after_credit)))
   \<and> get_texts (line blank_region) = Inr [Some ''first'', None, Some [], Some ''last'']
   \<and> step_texts caption_driver blank_region (''first'' @ newline @ ''last'') state_after_credit
        (snd (projr (build_body caption_driver blank_region 1 state_after_credit)))
   \<and> labels (snd (projr (build_body caption_driver blank_region 1 state_after_credit)))
       = labels state_after_credit @ [(''p'', Some (''first'' @ newline @ ''last''))]"
proof -
  let ?c' = "snd (projr (build_body caption_driver blank_region 1 state_after_credit))"
  have h: "build_body caption_driver blank_region 1 state_after_credit = Inr (1, ?c')"
    by code_simp
  have g: "get_texts (line blank_region) = Inr [Some ''first'', None, Some [], Some ''last'']"
    by code_simp
  have l: "labels ?c' = labels state_after_credit @ [(''p'', Some (''first'' @ newline @ ''last''))]"
    by code_simp
  have e: "join newline (filter (\<lambda>s. s \<noteq> [])
             (map text_or_empty [Some ''first'', None, Some [], Some ''last'']))
           = ''first'' @ newline @ ''last''"
    by code_simp
  from region_text_in_every_element [where d = caption_driver, OF disjI2 [OF h]]
  obtain ts where ts: "get_texts (line blank_region) = Inr ts"
    and st: "step_texts caption_driver blank_region
               (join newline (filter (\<lambda>s. s \<noteq> []) (map text_or_empty ts))) state_after_credit ?c'"
    by blast
  from ts g have "ts = [Some ''first'', None, Some [], Some ''last'']" by simp
  with st e have "step_texts caption_driver blank_region (''first'' @ newline @ ''last'')
                    state_after_credit ?c'"
    by simp
  with h g l show ?thesis by blast
qed

end
